theory Spec2Isabelle
  imports Main
begin

section \<open>JavaScript values of the story service\<close>

text \<open>
  The backend (\<^verbatim>\<open>server.js\<close>) handles values that come out of \<^verbatim>\<open>JSON.parse\<close>: the
  request body and the payloads of the upstream service. They are embedded as the
  datatype \<open>jsval\<close>. A string is a list of code units; the embedding covers the code units
  0 to 255. A number is an integer that a double holds exactly and prints in plain
  decimal (a magnitude up to \<open>2^53\<close>). An object is the list of its own properties in
  enumeration order.
  \<^verbatim>\<open>undefined\<close> is not a JSON value: a property read returns an \<open>option\<close>, and
  \<open>None\<close> stands for \<^verbatim>\<open>undefined\<close>.
\<close>

datatype jsval =
    JNull
  | JBool bool
  | JNum int
  | JStr string
  | JArr "jsval list"
  | JObj "(string \<times> jsval) list"

text \<open>
  \<^verbatim>\<open>v.k\<close> for the property names the server reads (none of them is defined on a
  prototype): only an object has such a property.
\<close>

fun js_prop :: "jsval \<Rightarrow> string \<Rightarrow> jsval option" where
  "js_prop (JObj kvs) k = map_of kvs k"
| "js_prop _ k = None"

text \<open>\<^verbatim>\<open>v[0]\<close>: the first element of an array, the first code unit of a string, the
  property \<^verbatim>\<open>"0"\<close> of an object.\<close>

fun index0 :: "jsval \<Rightarrow> jsval option" where
  "index0 (JArr xs) = (case xs of [] \<Rightarrow> None | x # _ \<Rightarrow> Some x)"
| "index0 (JStr s) = (case s of [] \<Rightarrow> None | c # _ \<Rightarrow> Some (JStr [c]))"
| "index0 (JObj kvs) = map_of kvs ''0''"
| "index0 _ = None"

text \<open>Truthiness (\<^verbatim>\<open>ToBoolean\<close>); \<^verbatim>\<open>undefined\<close> is falsy.\<close>

fun truthy :: "jsval \<Rightarrow> bool" where
  "truthy JNull = False"
| "truthy (JBool b) = b"
| "truthy (JNum n) = (n \<noteq> 0)"
| "truthy (JStr s) = (s \<noteq> [])"
| "truthy (JArr xs) = True"
| "truthy (JObj kvs) = True"

fun truthy_opt :: "jsval option \<Rightarrow> bool" where
  "truthy_opt None = False"
| "truthy_opt (Some v) = truthy v"

text \<open>\<^verbatim>\<open>a ?? b\<close>: the right operand is taken when the left one is \<^verbatim>\<open>undefined\<close> or
  \<^verbatim>\<open>null\<close>.\<close>

fun nullish :: "jsval option \<Rightarrow> bool" where
  "nullish None = True"
| "nullish (Some v) = (v = JNull)"

definition coalesce :: "jsval option \<Rightarrow> jsval option \<Rightarrow> jsval option" where
  "coalesce a b = (if nullish a then b else a)"

text \<open>\<^verbatim>\<open>v?.k\<close> on a value that may be \<^verbatim>\<open>undefined\<close>.\<close>

fun opt_prop :: "jsval option \<Rightarrow> string \<Rightarrow> jsval option" where
  "opt_prop None k = None"
| "opt_prop (Some v) k = js_prop v k"

fun isArray :: "jsval \<Rightarrow> bool" where
  "isArray (JArr xs) = True"
| "isArray _ = False"

subsection \<open>Numbers and strings\<close>

definition digit_char :: "nat \<Rightarrow> char" where
  "digit_char d = ''0123456789'' ! d"

function show_nat :: "nat \<Rightarrow> string" where
  "show_nat n = (if n < 10 then [digit_char n] else show_nat (n div 10) @ [digit_char (n mod 10)])"
  by pat_completeness auto
termination
  by (relation "measure id") auto

declare show_nat.simps [simp del]

text \<open>\<^verbatim>\<open>Number::toString\<close> on an integer.\<close>

definition show_int :: "int \<Rightarrow> string" where
  "show_int i = (if i < 0 then CHR ''-'' # show_nat (nat (- i)) else show_nat (nat i))"

fun join_strs :: "string \<Rightarrow> string list \<Rightarrow> string" where
  "join_strs sep [] = []"
| "join_strs sep [x] = x"
| "join_strs sep (x # y # ys) = x @ sep @ join_strs sep (y # ys)"

subsection \<open>Outcomes of an evaluation\<close>

text \<open>
  An evaluation returns a value, or it throws an error, kept as the string that
  \<^verbatim>\<open>String(err)\<close> makes of it, or it is outside the embedding: the value it needs is a
  number that is no integer of magnitude up to \<open>2^53\<close>.
\<close>

datatype 'a outcome = Value 'a | Thrown string | Outside

fun and_then :: "'a outcome \<Rightarrow> ('a \<Rightarrow> 'b outcome) \<Rightarrow> 'b outcome" where
  "and_then (Value v) f = f v"
| "and_then (Thrown e) f = Thrown e"
| "and_then Outside f = Outside"

definition map_outcome :: "('a \<Rightarrow> 'b) \<Rightarrow> 'a outcome \<Rightarrow> 'b outcome" where
  "map_outcome f x = and_then x (\<lambda>v. Value (f v))"

fun of_option :: "'a option \<Rightarrow> 'a outcome" where
  "of_option (Some v) = Value v"
| "of_option None = Outside"

text \<open>The outcomes of a list of evaluations done in order.\<close>

fun in_order :: "'a outcome list \<Rightarrow> 'a list outcome" where
  "in_order [] = Value []"
| "in_order (x # xs) = and_then x (\<lambda>v. and_then (in_order xs) (\<lambda>vs. Value (v # vs)))"

subsection \<open>\<^verbatim>\<open>ToString\<close>\<close>

text \<open>The \<^verbatim>\<open>TypeError\<close> of \<^verbatim>\<open>ToPrimitive\<close>, with the text V8 gives it.\<close>

definition cannot_convert :: string where
  "cannot_convert = ''TypeError: Cannot convert object to primitive value''"

text \<open>\<^verbatim>\<open>Number::toString\<close>: plain decimal digits for an integer of magnitude up to
  \<open>2^53\<close>.\<close>

definition Number_toString :: "int \<Rightarrow> string outcome" where
  "Number_toString i = (if \<bar>i\<bar> \<le> 9007199254740992 then Value (show_int i) else Outside)"

text \<open>
  \<^verbatim>\<open>ToString\<close>, as \<^verbatim>\<open>String(v)\<close> and a template literal apply it. An object goes
  through \<^verbatim>\<open>ToPrimitive\<close>, which reads its \<^verbatim>\<open>toString\<close> property: an object that came
  out of \<^verbatim>\<open>JSON.parse\<close> inherits \<^verbatim>\<open>Object.prototype.toString\<close> and prints as
  \<^verbatim>\<open>[object Object]\<close>, unless it has an own property \<^verbatim>\<open>toString\<close>; that one is no
  function, \<^verbatim>\<open>valueOf\<close> returns no primitive either, and \<^verbatim>\<open>ToPrimitive\<close> throws a
  \<^verbatim>\<open>TypeError\<close>. An array prints through \<^verbatim>\<open>Array.prototype.join\<close>: its elements in
  order, \<^verbatim>\<open>null\<close> as the empty string, with the separator between them.
\<close>

fun ToString :: "jsval \<Rightarrow> string outcome"
  and join_from :: "string \<Rightarrow> jsval list \<Rightarrow> string outcome"
where
  "ToString JNull = Value ''null''"
| "ToString (JBool b) = Value (if b then ''true'' else ''false'')"
| "ToString (JNum n) = Number_toString n"
| "ToString (JStr s) = Value s"
| "ToString (JArr xs) = join_from '','' xs"
| "ToString (JObj kvs) =
     (if map_of kvs ''toString'' \<noteq> None then Thrown cannot_convert else Value ''[object Object]'')"
| "join_from sep [] = Value []"
| "join_from sep (x # xs) =
     and_then (if x = JNull then Value [] else ToString x)
       (\<lambda>a. if xs = [] then Value a
            else and_then (join_from sep xs) (\<lambda>b. Value (a @ sep @ b)))"

text \<open>\<^verbatim>\<open>xs.join(sep)\<close>.\<close>

definition join :: "jsval list \<Rightarrow> string \<Rightarrow> string outcome" where
  "join xs sep = join_from sep xs"

subsection \<open>\<^verbatim>\<open>JSON.stringify\<close>\<close>

definition hex_char :: "nat \<Rightarrow> char" where
  "hex_char d = ''0123456789abcdef'' ! d"

text \<open>\<^verbatim>\<open>QuoteJSONString\<close>, one code unit.\<close>

definition quote_char :: "char \<Rightarrow> string" where
  "quote_char c =
     (if c = CHR 0x08 then [CHR 0x5C, CHR ''b'']
      else if c = CHR 0x09 then [CHR 0x5C, CHR ''t'']
      else if c = CHR 0x0A then [CHR 0x5C, CHR ''n'']
      else if c = CHR 0x0C then [CHR 0x5C, CHR ''f'']
      else if c = CHR 0x0D then [CHR 0x5C, CHR ''r'']
      else if c = CHR 0x22 then [CHR 0x5C, CHR 0x22]
      else if c = CHR 0x5C then [CHR 0x5C, CHR 0x5C]
      else if of_char c < (32::nat)
        then [CHR 0x5C, CHR ''u'', CHR ''0'', CHR ''0'',
              hex_char (of_char c div 16), hex_char (of_char c mod 16)]
      else [c])"

definition quote :: "string \<Rightarrow> string" where
  "quote s = CHR 0x22 # concat (map quote_char s) @ [CHR 0x22]"

fun JSON_stringify :: "jsval \<Rightarrow> string" where
  "JSON_stringify JNull = ''null''"
| "JSON_stringify (JBool b) = (if b then ''true'' else ''false'')"
| "JSON_stringify (JNum n) = show_int n"
| "JSON_stringify (JStr s) = quote s"
| "JSON_stringify (JArr xs) = ''['' @ join_strs '','' (map JSON_stringify xs) @ '']''"
| "JSON_stringify (JObj kvs) =
     ''{'' @ join_strs '','' (map (\<lambda>kv. quote (fst kv) @ '':'' @ JSON_stringify (snd kv)) kvs) @ ''}''"

section \<open>Normalising the upstream text payload\<close>

text \<open>
  \<^verbatim>\<open>extractTextFromDeepInfra(respJson)\<close>, lines 37 to 51. The result is a JavaScript
  value: \<^verbatim>\<open>null\<close> for a falsy payload, a string, or whatever the payload holds in the
  field that is returned.
\<close>

text \<open>\<^verbatim>\<open>Array.isArray(a) && a[0]\<close>, when that is truthy.\<close>

fun array_first :: "jsval option \<Rightarrow> jsval option" where
  "array_first (Some (JArr (x # xs))) = (if truthy x then Some x else None)"
| "array_first _ = None"

text \<open>\<^verbatim>\<open>x ?? JSON.stringify(v)\<close>.\<close>

fun or_stringify :: "jsval option \<Rightarrow> jsval \<Rightarrow> jsval" where
  "or_stringify None v = JStr (JSON_stringify v)"
| "or_stringify (Some y) v = (if y = JNull then JStr (JSON_stringify v) else y)"

text \<open>Line 41: \<^verbatim>\<open>if (respJson.output) return respJson.output\<close>.\<close>

definition from_output :: "jsval \<Rightarrow> jsval option" where
  "from_output respJson =
     (case js_prop respJson ''output'' of
        Some out \<Rightarrow> if truthy out then Some out else None
      | None \<Rightarrow> None)"

text \<open>Lines 42 to 45.\<close>

definition from_results :: "jsval \<Rightarrow> jsval option" where
  "from_results respJson =
     (case array_first (js_prop respJson ''results'') of
        Some r0 \<Rightarrow>
          Some (or_stringify
                  (coalesce (js_prop r0 ''output'') (coalesce (js_prop r0 ''content'') (js_prop r0 ''text'')))
                  r0)
      | None \<Rightarrow> None)"

text \<open>Lines 46 to 48.\<close>

definition from_choices :: "jsval \<Rightarrow> jsval option" where
  "from_choices respJson =
     (case array_first (js_prop respJson ''choices'') of
        Some c0 \<Rightarrow>
          Some (or_stringify
                  (coalesce (js_prop c0 ''text'') (opt_prop (js_prop c0 ''message'') ''content''))
                  c0)
      | None \<Rightarrow> None)"

text \<open>Line 49.\<close>

definition from_detail :: "jsval \<Rightarrow> jsval option" where
  "from_detail respJson =
     (case js_prop respJson ''detail'' of
        Some d \<Rightarrow>
          if truthy d \<and> truthy_opt (js_prop d ''error'') then Some (JStr (JSON_stringify d))
          else None
      | None \<Rightarrow> None)"

fun isString :: "jsval \<Rightarrow> bool" where
  "isString (JStr s) = True"
| "isString _ = False"

text \<open>The attempts are tried in the order of the source; the first that returns wins.\<close>

fun first_match :: "jsval option list \<Rightarrow> jsval option" where
  "first_match [] = None"
| "first_match (Some v # rest) = Some v"
| "first_match (None # rest) = first_match rest"

definition extractTextFromDeepInfra :: "jsval \<Rightarrow> jsval" where
  "extractTextFromDeepInfra respJson =
     (if \<not> truthy respJson then JNull
      else if isString respJson then respJson
      else (case first_match [from_output respJson, from_results respJson,
                              from_choices respJson, from_detail respJson] of
              Some v \<Rightarrow> v
            | None \<Rightarrow> JStr (JSON_stringify respJson)))"

section \<open>Coercions used by the request handler\<close>

text \<open>
  The numbers that \<^verbatim>\<open>Number(v)\<close> returns. For a string that is not a plain decimal
  integer of magnitude up to \<open>2^53\<close> (a fraction, an exponent, a hexadecimal literal,
  \<^verbatim>\<open>Infinity\<close>, a longer numeral, or text that is no number) \<open>StringToNumber\<close> is
  \<open>None\<close>: such a string is outside the embedding, and so is every run of the handler
  that needs its numeric value.
\<close>

datatype jsnum = NaN | Fin int

text \<open>The code units 0 to 255 that \<^verbatim>\<open>String.prototype.trim\<close> and
  \<^verbatim>\<open>StringToNumber\<close> strip.\<close>

definition is_space :: "char \<Rightarrow> bool" where
  "is_space c = (c \<in> {CHR 0x09, CHR 0x0A, CHR 0x0B, CHR 0x0C, CHR 0x0D, CHR 0x20, CHR 0xA0})"

definition trim :: "string \<Rightarrow> string" where
  "trim s = rev (dropWhile is_space (rev (dropWhile is_space s)))"

definition is_digit :: "char \<Rightarrow> bool" where
  "is_digit c = (48 \<le> (of_char c :: nat) \<and> (of_char c :: nat) \<le> 57)"

definition digit_val :: "char \<Rightarrow> nat" where
  "digit_val c = of_char c - 48"

definition read_nat :: "string \<Rightarrow> nat" where
  "read_nat ds = foldl (\<lambda>acc c. 10 * acc + digit_val c) 0 ds"

text \<open>The integers that a double holds exactly.\<close>

definition safe_integer :: "int \<Rightarrow> jsnum option" where
  "safe_integer i = (if \<bar>i\<bar> \<le> 9007199254740992 then Some (Fin i) else None)"

definition StringToNumber :: "string \<Rightarrow> jsnum option" where
  "StringToNumber s =
     (let t = trim s in
      if t = [] then Some (Fin 0)
      else if list_all is_digit t then safe_integer (int (read_nat t))
      else (case t of
              c # ds \<Rightarrow>
                if ds \<noteq> [] \<and> list_all is_digit ds \<and> c = CHR ''+'' then safe_integer (int (read_nat ds))
                else if ds \<noteq> [] \<and> list_all is_digit ds \<and> c = CHR ''-'' then safe_integer (- int (read_nat ds))
                else None
            | [] \<Rightarrow> None))"

text \<open>
  \<^verbatim>\<open>Number(v)\<close>. An array and an object go through \<^verbatim>\<open>ToPrimitive\<close>, which throws for
  an object with an own property \<^verbatim>\<open>toString\<close>: an array gives the number of its string,
  any other object prints as \<^verbatim>\<open>[object Object]\<close>, which is no number.
\<close>

fun Number :: "jsval \<Rightarrow> jsnum outcome" where
  "Number JNull = Value (Fin 0)"
| "Number (JBool b) = Value (Fin (if b then 1 else 0))"
| "Number (JNum n) = Value (Fin n)"
| "Number (JStr s) = of_option (StringToNumber s)"
| "Number (JArr xs) = and_then (ToString (JArr xs)) (\<lambda>s. of_option (StringToNumber s))"
| "Number (JObj kvs) =
     (if map_of kvs ''toString'' \<noteq> None then Thrown cannot_convert else Value NaN)"

text \<open>The string of a number, as the template literal of line 59 prints \<^verbatim>\<open>Number(paragraphs)\<close>.\<close>

fun jsnum_toString :: "jsnum \<Rightarrow> string outcome" where
  "jsnum_toString NaN = Value ''NaN''"
| "jsnum_toString (Fin i) = Number_toString i"

text \<open>\<^verbatim>\<open>ToLength\<close>: \<^verbatim>\<open>NaN\<close> and negative numbers give 0, and \<open>2^53 - 1\<close> is the
  largest length.\<close>

fun ToLength :: "jsnum \<Rightarrow> nat" where
  "ToLength NaN = 0"
| "ToLength (Fin n) = nat (min n 9007199254740991)"

text \<open>The \<^verbatim>\<open>RangeError\<close> of the array constructor, with the text V8 gives it.\<close>

definition invalid_array_length :: string where
  "invalid_array_length = ''RangeError: Invalid array length''"

text \<open>
  \<^verbatim>\<open>Array.from({ length: len }, (_, i) => f(i))\<close>: the array constructor throws a
  \<^verbatim>\<open>RangeError\<close> for a length from \<open>2^32\<close>; below it the elements are computed in order.
  (What the runtime can allocate below that length is not modelled.)
\<close>

definition Array_from :: "nat \<Rightarrow> (nat \<Rightarrow> 'a outcome) \<Rightarrow> 'a list outcome" where
  "Array_from len f =
     (if 4294967296 \<le> int len then Thrown invalid_array_length else in_order (map f [0..<len]))"

text \<open>\<^verbatim>\<open>xs.slice(0, e)\<close> for a number \<^verbatim>\<open>e\<close>: a negative end counts from the end of
  the array, \<^verbatim>\<open>NaN\<close> is 0.\<close>

fun slice0 :: "'a list \<Rightarrow> jsnum \<Rightarrow> 'a list" where
  "slice0 xs NaN = []"
| "slice0 xs (Fin e) =
     (if e < 0 then take (nat (int (length xs) + e)) xs else take (nat e) xs)"

text \<open>
  \<^verbatim>\<open>s.split(/\n{1,}/)\<close>: the pieces of \<open>s\<close> between maximal runs of line feeds. The
  flag says that the previous code unit was a line feed, \<open>cur\<close> is the piece being read,
  reversed.
\<close>

fun split_from :: "bool \<Rightarrow> string \<Rightarrow> string \<Rightarrow> string list" where
  "split_from in_run cur [] = [rev cur]"
| "split_from in_run cur (c # cs) =
     (if c = CHR 0x0A
      then (if in_run then split_from True [] cs else rev cur # split_from True [] cs)
      else split_from False (c # cur) cs)"

definition split_newlines :: "string \<Rightarrow> string list" where
  "split_newlines s = split_from False [] s"

text \<open>\<^verbatim>\<open>s.toLowerCase()\<close> on the code units 0 to 255.\<close>

definition lower_char :: "char \<Rightarrow> char" where
  "lower_char c =
     (let n = (of_char c :: nat) in
      if (65 \<le> n \<and> n \<le> 90) \<or> (192 \<le> n \<and> n \<le> 222 \<and> n \<noteq> 215) then char_of (n + 32) else c)"

definition toLowerCase :: "string \<Rightarrow> string" where
  "toLowerCase s = map lower_char s"

text \<open>\<^verbatim>\<open>s.includes(p)\<close>.\<close>

fun starts_with :: "string \<Rightarrow> string \<Rightarrow> bool" where
  "starts_with s [] = True"
| "starts_with [] (p # ps) = False"
| "starts_with (c # cs) (p # ps) = (c = p \<and> starts_with cs ps)"

fun str_includes :: "string \<Rightarrow> string \<Rightarrow> bool" where
  "str_includes [] p = (p = [])"
| "str_includes (c # cs) p = (starts_with (c # cs) p \<or> str_includes cs p)"

section \<open>The handler of \<^verbatim>\<open>POST /api/generate-story\<close>\<close>

text \<open>
  The configuration read at start-up (lines 12 and 13). The key is falsy when it is the
  empty string.
\<close>

record config =
  DEEPINFRA_API_KEY :: string
  DEV_FALLBACK :: bool

text \<open>
  What \<^verbatim>\<open>fetchWithTimeout\<close> gives the handler. The request that is sent is not part of
  the result; the outcome of each call is an input of the model. A call is rejected (a
  network failure, or the abort that the timer of \<^verbatim>\<open>fetchWithTimeout\<close> raises), or it
  resolves to a response with a status and a body. Reading the body (\<^verbatim>\<open>resp.text()\<close>,
  \<^verbatim>\<open>resp.json()\<close>) can be rejected too. An error is kept as the string that
  \<^verbatim>\<open>String(err)\<close> makes of it.
\<close>

record upstream_response =
  status :: nat
  text_body :: "string + string"
  json_body :: "string + jsval"

datatype fetch_outcome = Rejected string | Resolved upstream_response

text \<open>\<^verbatim>\<open>resp.ok\<close>.\<close>

definition ok :: "upstream_response \<Rightarrow> bool" where
  "ok r = (200 \<le> status r \<and> status r \<le> 299)"

text \<open>What \<^verbatim>\<open>res.status(n).json(v)\<close> sends; \<^verbatim>\<open>res.json(v)\<close> sends status 200.\<close>

record http_response =
  http_status :: nat
  http_body :: jsval

text \<open>The four names bound by the destructuring of line 55.\<close>

record story_request =
  genre :: jsval
  characters :: jsval
  paragraphs :: jsval
  imagesPerParagraph :: jsval

text \<open>A default is taken when the property is \<^verbatim>\<open>undefined\<close>, not when it is
  \<^verbatim>\<open>null\<close>.\<close>

definition field_or :: "jsval \<Rightarrow> string \<Rightarrow> jsval \<Rightarrow> jsval" where
  "field_or b k d = (case js_prop b k of None \<Rightarrow> d | Some v \<Rightarrow> v)"

text \<open>
  Line 55. \<^verbatim>\<open>req.body\<close> is \<^verbatim>\<open>undefined\<close> (\<open>None\<close>) when no JSON body was parsed;
  destructuring \<^verbatim>\<open>undefined\<close> or \<^verbatim>\<open>null\<close> throws a \<^verbatim>\<open>TypeError\<close>, given here with the
  text V8 prints for it.
\<close>

definition destructure :: "jsval option \<Rightarrow> string + story_request" where
  "destructure body =
     (case body of
        None \<Rightarrow> Inl (''TypeError: Cannot destructure property '' @ [CHR 0x27] @ ''genre'' @ [CHR 0x27]
                     @ '' of '' @ [CHR 0x27] @ ''req.body'' @ [CHR 0x27] @ '' as it is undefined.'')
      | Some JNull \<Rightarrow> Inl (''TypeError: Cannot destructure property '' @ [CHR 0x27] @ ''genre'' @ [CHR 0x27]
                     @ '' of '' @ [CHR 0x27] @ ''req.body'' @ [CHR 0x27] @ '' as it is null.'')
      | Some b \<Rightarrow>
          Inr \<lparr> genre = field_or b ''genre'' (JStr ''fantasy''),
                characters = field_or b ''characters'' (JArr []),
                paragraphs = field_or b ''paragraphs'' (JNum 3),
                imagesPerParagraph = field_or b ''imagesPerParagraph'' (JBool False) \<rparr>)"

text \<open>Line 56: an array is joined, which converts its elements to strings; any other value
  is taken as it is.\<close>

definition charStr :: "story_request \<Rightarrow> jsval outcome" where
  "charStr rq =
     (case characters rq of JArr xs \<Rightarrow> map_outcome JStr (join xs '', '') | c \<Rightarrow> Value c)"

text \<open>\<^verbatim>\<open>a || b\<close>.\<close>

definition or_else :: "jsval \<Rightarrow> jsval \<Rightarrow> jsval" where
  "or_else a b = (if truthy a then a else b)"

text \<open>
  Line 59: the template literal converts \<^verbatim>\<open>Number(paragraphs)\<close>, \<^verbatim>\<open>genre\<close> and
  \<^verbatim>\<open>charStr\<close> to strings, in this order; \<open>cs\<close> is the value of \<^verbatim>\<open>charStr\<close>. The prompt
  goes to the upstream service; the handler itself sees of it only whether line 59 throws.
\<close>

definition prompt :: "story_request \<Rightarrow> jsval \<Rightarrow> string outcome" where
  "prompt rq cs =
     and_then (Number (paragraphs rq)) (\<lambda>n.
     and_then (jsnum_toString n) (\<lambda>count.
     and_then (ToString (genre rq)) (\<lambda>g.
     and_then (ToString cs) (\<lambda>c.
       Value (''System: You are a helpful creative fiction writer.'' @ [CHR 0x0A]
              @ ''User: Write a '' @ count @ ''-paragraph '' @ g
              @ '' short story for adults. Characters: '' @ c @ ''.'' @ [CHR 0x0A]
              @ ''Constraints: Each paragraph should be distinct and between 2-6 sentences. ''
              @ ''After the story include a 1-2 sentence preface/summary. ''
              @ ''Output only the story and the preface.'')))))"

subsection \<open>The synthetic story\<close>

text \<open>
  Lines 72 to 74 and lines 109 to 111 differ in two literals only: the word after
  \<^verbatim>\<open>A\<close> (\<^verbatim>\<open>short\<close>, \<^verbatim>\<open>fallback\<close>) and the preface.
\<close>

text \<open>The length given to \<^verbatim>\<open>Array.from\<close>: \<^verbatim>\<open>Number(paragraphs || 1)\<close>, read as a length.\<close>

definition dummy_count :: "story_request \<Rightarrow> nat outcome" where
  "dummy_count rq = map_outcome ToLength (Number (or_else (paragraphs rq) (JNum 1)))"

text \<open>The function mapped over the indices: one template literal.\<close>

definition dummy_paragraph :: "string \<Rightarrow> story_request \<Rightarrow> jsval \<Rightarrow> nat \<Rightarrow> string outcome" where
  "dummy_paragraph word rq cs i =
     and_then (ToString (genre rq)) (\<lambda>g.
     and_then (ToString (or_else cs (JStr ''characters''))) (\<lambda>c.
       Value (''Paragraph '' @ show_nat (i + 1) @ '': A '' @ word @ '' '' @ g
              @ '' scene featuring '' @ c @ ''.'')))"

definition paragraphsArr :: "string \<Rightarrow> story_request \<Rightarrow> jsval \<Rightarrow> string list outcome" where
  "paragraphsArr word rq cs =
     and_then (dummy_count rq) (\<lambda>len. Array_from len (dummy_paragraph word rq cs))"

definition dummyStory :: "string \<Rightarrow> string list \<Rightarrow> string" where
  "dummyStory preface ps = join_strs [CHR 0x0A, CHR 0x0A] ps @ [CHR 0x0A, CHR 0x0A] @ preface"

definition dummy_response :: "string \<Rightarrow> string list \<Rightarrow> http_response" where
  "dummy_response preface ps =
     \<lparr> http_status = 200,
       http_body = JObj [(''story'', JStr (dummyStory preface ps)),
                         (''paragraphs'', JArr (map JStr ps)),
                         (''images'', JArr [])] \<rparr>"

text \<open>Lines 72 to 74, when no key is configured.\<close>

definition no_key_response :: "story_request \<Rightarrow> jsval \<Rightarrow> http_response outcome" where
  "no_key_response rq cs =
     map_outcome (dummy_response ''Preface: This is a placeholder summary.'')
       (paragraphsArr ''short'' rq cs)"

text \<open>Lines 109 to 111, when the text call failed.\<close>

definition fallback_response :: "story_request \<Rightarrow> jsval \<Rightarrow> http_response outcome" where
  "fallback_response rq cs =
     map_outcome (dummy_response ''Preface: This is a fallback placeholder.'')
       (paragraphsArr ''fallback'' rq cs)"

subsection \<open>The text call\<close>

text \<open>
  Lines 80 to 114: the three ways the \<^verbatim>\<open>try\<close> block ends. Every rejection inside it
  (of the call, of \<^verbatim>\<open>resp.text()\<close>, of \<^verbatim>\<open>resp.json()\<close>) reaches the same \<^verbatim>\<open>catch\<close>.
\<close>

datatype text_result = Threw string | NonOk nat string | Payload jsval

definition text_call :: "fetch_outcome \<Rightarrow> text_result" where
  "text_call f =
     (case f of
        Rejected e \<Rightarrow> Threw e
      | Resolved resp \<Rightarrow>
          if \<not> ok resp
          then (case text_body resp of Inl e \<Rightarrow> Threw e | Inr bodyText \<Rightarrow> NonOk (status resp) bodyText)
          else (case json_body resp of Inl e \<Rightarrow> Threw e | Inr textResp \<Rightarrow> Payload textResp))"

text \<open>Lines 94 to 102.\<close>

definition non_ok_response :: "nat \<Rightarrow> string \<Rightarrow> http_response" where
  "non_ok_response st bodyText =
     (if str_includes (toLowerCase bodyText) ''balance'' \<or> str_includes (toLowerCase bodyText) ''top-up''
      then \<lparr> http_status = 402,
             http_body = JObj [(''code'', JStr ''insufficient_balance''),
                               (''message'', JStr ''DeepInfra account has insufficient balance. Top up to enable inference.''),
                               (''detail'', JStr bodyText)] \<rparr>
      else \<lparr> http_status = 502,
             http_body = JObj [(''code'', JStr ''upstream_error''),
                               (''status'', JNum (int st)),
                               (''detail'', JStr bodyText)] \<rparr>)"

text \<open>Line 113.\<close>

definition network_error_response :: "string \<Rightarrow> http_response" where
  "network_error_response e =
     \<lparr> http_status = 502,
       http_body = JObj [(''error'', JStr ''network_or_upstream''), (''message'', JStr e)] \<rparr>"

text \<open>Line 160.\<close>

definition server_error_response :: "string \<Rightarrow> http_response" where
  "server_error_response e =
     \<lparr> http_status = 500,
       http_body = JObj [(''error'', JStr ''server_error''), (''message'', JStr e)] \<rparr>"

subsection \<open>The images\<close>

text \<open>Line 123. The numeric value of \<^verbatim>\<open>paragraphs\<close> is needed only when the story is a
  string.\<close>

definition paraArr :: "jsval \<Rightarrow> jsval \<Rightarrow> jsval list outcome" where
  "paraArr storyText n =
     (case storyText of
        JStr s \<Rightarrow>
          map_outcome (slice0 (map JStr (filter (\<lambda>p. trim p \<noteq> []) (split_newlines s)))) (Number n)
      | _ \<Rightarrow> Value [storyText])"

text \<open>Line 126: the template literal converts the paragraph to a string.\<close>

definition imgPrompt :: "jsval \<Rightarrow> string outcome" where
  "imgPrompt p =
     and_then (ToString p) (\<lambda>t.
       Value (''Create an illustration for: '' @ t @ [CHR 0x0A]
              @ ''Style: cinematic, detailed, suitable for a book illustration.''))"

text \<open>Line 145.\<close>

definition image_url :: "jsval \<Rightarrow> jsval option" where
  "image_url imgJson =
     coalesce (js_prop imgJson ''output_url'')
       (coalesce (js_prop imgJson ''url'')
          (opt_prop (case js_prop imgJson ''results'' of None \<Rightarrow> None | Some r \<Rightarrow> index0 r) ''output''))"

text \<open>Lines 146 and 147.\<close>

definition image_slot :: "jsval \<Rightarrow> jsval" where
  "image_slot imgJson =
     (case image_url imgJson of
        Some url \<Rightarrow> if truthy url then JObj [(''url'', url)] else JObj [(''raw'', imgJson)]
      | None \<Rightarrow> JObj [(''raw'', imgJson)])"

text \<open>Line 139.\<close>

definition image_upstream_error :: "nat \<Rightarrow> string \<Rightarrow> jsval" where
  "image_upstream_error st txt =
     JObj [(''error'', JStr (''image_upstream_'' @ show_nat st)), (''detail'', JStr txt)]"

text \<open>Line 151.\<close>

definition image_generation_failed :: "string \<Rightarrow> jsval" where
  "image_generation_failed e =
     JObj [(''error'', JStr ''image_generation_failed''), (''message'', JStr e)]"

text \<open>
  One iteration of the loop, lines 125 to 147, for the paragraph \<open>p\<close> and the outcome of
  its call: the slot it pushes, or the error it throws. The prompt of line 126 is built
  before the call is made.
\<close>

definition image_iteration :: "jsval \<Rightarrow> fetch_outcome \<Rightarrow> jsval outcome" where
  "image_iteration p f =
     and_then (imgPrompt p) (\<lambda>_.
       case f of
         Rejected e \<Rightarrow> Thrown e
       | Resolved resp \<Rightarrow>
           if \<not> ok resp
           then (case text_body resp of
                   Inl e \<Rightarrow> Thrown e
                 | Inr txt \<Rightarrow> Value (image_upstream_error (status resp) txt))
           else (case json_body resp of
                   Inl e \<Rightarrow> Thrown e
                 | Inr imgJson \<Rightarrow> Value (image_slot imgJson)))"

text \<open>
  The loop of lines 124 to 148 inside the \<^verbatim>\<open>try\<close> of line 121, with its \<^verbatim>\<open>catch\<close>:
  \<open>i\<close> is the loop index, the list holds the paragraphs still to do, \<open>images\<close> is the
  array built so far. The \<open>i\<close>-th iteration makes one call, whose outcome is
  \<open>image_fetch i\<close>. A thrown error ends the loop in the \<^verbatim>\<open>catch\<close> of line 149, which
  pushes one descriptor. The result is the array \<^verbatim>\<open>images\<close> after the \<^verbatim>\<open>try\<close>
  statement (\<open>None\<close> when an iteration is outside the embedding).
\<close>

fun image_loop ::
  "(nat \<Rightarrow> fetch_outcome) \<Rightarrow> nat \<Rightarrow> jsval list \<Rightarrow> jsval list \<Rightarrow> jsval list option" where
  "image_loop image_fetch i [] images = Some images"
| "image_loop image_fetch i (p # ps) images =
     (case image_iteration p (image_fetch i) of
        Thrown e \<Rightarrow> Some (images @ [image_generation_failed e])
      | Value slot \<Rightarrow> image_loop image_fetch (i + 1) ps (images @ [slot])
      | Outside \<Rightarrow> None)"

text \<open>Lines 119 to 153: an error thrown by line 123 reaches the same \<^verbatim>\<open>catch\<close>.\<close>

definition generate_images ::
  "(nat \<Rightarrow> fetch_outcome) \<Rightarrow> story_request \<Rightarrow> jsval \<Rightarrow> jsval list option" where
  "generate_images image_fetch rq storyText =
     (if truthy (imagesPerParagraph rq)
      then (case paraArr storyText (paragraphs rq) of
              Value ps \<Rightarrow> image_loop image_fetch 0 ps []
            | Thrown e \<Rightarrow> Some [image_generation_failed e]
            | Outside \<Rightarrow> None)
      else Some [])"

subsection \<open>The handler\<close>

text \<open>Line 116.\<close>

definition storyText_of :: "jsval \<Rightarrow> jsval" where
  "storyText_of textResp = or_stringify (Some (extractTextFromDeepInfra textResp)) textResp"

text \<open>Line 156, for the string \<open>story\<close> that \<^verbatim>\<open>String(storyText)\<close> returns.\<close>

definition story_response :: "string \<Rightarrow> jsval \<Rightarrow> jsval list \<Rightarrow> http_response" where
  "story_response story textResp images =
     \<lparr> http_status = 200,
       http_body = JObj [(''story'', JStr story),
                         (''raw'', textResp),
                         (''images'', JArr images)] \<rparr>"

text \<open>
  Lines 116 to 156, after the text call returned the payload \<open>textResp\<close>: the images,
  then \<^verbatim>\<open>String(storyText)\<close>, which can throw.
\<close>

definition after_text ::
  "(nat \<Rightarrow> fetch_outcome) \<Rightarrow> story_request \<Rightarrow> jsval \<Rightarrow> http_response outcome" where
  "after_text image_fetch rq textResp =
     and_then (of_option (generate_images image_fetch rq (storyText_of textResp))) (\<lambda>images.
     and_then (ToString (storyText_of textResp)) (\<lambda>story.
       Value (story_response story textResp images)))"

text \<open>
  The body of the outer \<^verbatim>\<open>try\<close>, lines 55 to 156: the response it sends, or the error
  that reaches the \<^verbatim>\<open>catch\<close> of line 158. An error thrown inside the \<^verbatim>\<open>catch\<close> block of
  lines 105 to 114 (by line 109) reaches it too.
\<close>

definition handle ::
  "config \<Rightarrow> jsval option \<Rightarrow> fetch_outcome \<Rightarrow> (nat \<Rightarrow> fetch_outcome) \<Rightarrow> http_response outcome" where
  "handle cfg body text_fetch image_fetch =
     (case destructure body of
        Inl e \<Rightarrow> Thrown e
      | Inr rq \<Rightarrow>
          and_then (charStr rq) (\<lambda>cs.
          and_then (prompt rq cs) (\<lambda>_.
            if DEEPINFRA_API_KEY cfg = [] \<and> DEV_FALLBACK cfg
            then no_key_response rq cs
            else (case text_call text_fetch of
                    NonOk st bodyText \<Rightarrow> Value (non_ok_response st bodyText)
                  | Threw e \<Rightarrow>
                      if DEV_FALLBACK cfg then fallback_response rq cs
                      else Value (network_error_response e)
                  | Payload textResp \<Rightarrow> after_text image_fetch rq textResp))))"

text \<open>
  Lines 53 to 162: the response of the handler. An error that reaches line 158 is
  answered with status 500. The result is \<open>None\<close> when the run is outside the embedding;
  every other run sends one response.
\<close>

definition generate_story ::
  "config \<Rightarrow> jsval option \<Rightarrow> fetch_outcome \<Rightarrow> (nat \<Rightarrow> fetch_outcome) \<Rightarrow> http_response option" where
  "generate_story cfg body text_fetch image_fetch =
     (case handle cfg body text_fetch image_fetch of
        Value response \<Rightarrow> Some response
      | Thrown e \<Rightarrow> Some (server_error_response e)
      | Outside \<Rightarrow> None)"

section \<open>\<^verbatim>\<open>JSON.parse\<close>\<close>

text \<open>
  \<^verbatim>\<open>JSON.parse\<close> of the runtime, on the values of the embedding: the result is
  \<open>None\<close> for a text that is not JSON, and for a JSON text that holds a number with a
  fraction or an exponent or an escape of a code unit above 255.
\<close>

text \<open>The tokens of a JSON text.\<close>

datatype token =
  TLBrace | TRBrace | TLBracket | TRBracket | TColon | TComma
  | TStr string | TNum int | TTrue | TFalse | TNull

text \<open>The white space of the JSON grammar.\<close>

definition json_ws :: "char \<Rightarrow> bool" where
  "json_ws c = (c \<in> {CHR 0x20, CHR 0x09, CHR 0x0A, CHR 0x0D})"

definition cons_tok :: "token \<Rightarrow> token list option \<Rightarrow> token list option" where
  "cons_tok t r = map_option ((#) t) r"

text \<open>The value of a hexadecimal digit, as the four-digit escapes of a string use it.\<close>

definition hex_val :: "char \<Rightarrow> nat option" where
  "hex_val c =
     (let n = (of_char c :: nat) in
      if 48 \<le> n \<and> n \<le> 57 then Some (n - 48)
      else if 97 \<le> n \<and> n \<le> 102 then Some (n - 87)
      else if 65 \<le> n \<and> n \<le> 70 then Some (n - 55)
      else None)"

definition hex4 :: "char \<Rightarrow> char \<Rightarrow> char \<Rightarrow> char \<Rightarrow> nat option" where
  "hex4 a b c d =
     (case (hex_val a, hex_val b, hex_val c, hex_val d) of
        (Some x, Some y, Some z, Some w) \<Rightarrow> Some (((x * 16 + y) * 16 + z) * 16 + w)
      | _ \<Rightarrow> None)"

definition num_token :: "bool \<Rightarrow> nat \<Rightarrow> token" where
  "num_token neg n = TNum (if neg then - int n else int n)"

text \<open>
  The lexer, one function for each state: between tokens, inside a string (\<open>acc\<close> holds
  the code units read so far, reversed), after a backslash, inside a number (sign, whether
  the literal is a lone \<^verbatim>\<open>0\<close>, value so far). A number ends at white space, a comma or
  a closing bracket; any other code unit after it is a syntax error.
\<close>

fun lex :: "string \<Rightarrow> token list option"
  and lex_str :: "string \<Rightarrow> string \<Rightarrow> token list option"
  and lex_esc :: "string \<Rightarrow> string \<Rightarrow> token list option"
  and lex_num :: "bool \<Rightarrow> bool \<Rightarrow> nat \<Rightarrow> string \<Rightarrow> token list option"
where
  "lex [] = Some []"
| "lex (c # cs) =
     (if json_ws c then lex cs
      else if c = CHR ''{'' then cons_tok TLBrace (lex cs)
      else if c = CHR ''}'' then cons_tok TRBrace (lex cs)
      else if c = CHR ''['' then cons_tok TLBracket (lex cs)
      else if c = CHR '']'' then cons_tok TRBracket (lex cs)
      else if c = CHR '':'' then cons_tok TColon (lex cs)
      else if c = CHR '','' then cons_tok TComma (lex cs)
      else if c = CHR 0x22 then lex_str [] cs
      else if c = CHR ''-'' then
        (case cs of
           d # ds \<Rightarrow> if is_digit d then lex_num True (d = CHR ''0'') (digit_val d) ds else None
         | [] \<Rightarrow> None)
      else if is_digit c then lex_num False (c = CHR ''0'') (digit_val c) cs
      else if c = CHR ''t'' then
        (case cs of
           x # y # z # rest \<Rightarrow> if [x, y, z] = ''rue'' then cons_tok TTrue (lex rest) else None
         | _ \<Rightarrow> None)
      else if c = CHR ''f'' then
        (case cs of
           x # y # z # w # rest \<Rightarrow> if [x, y, z, w] = ''alse'' then cons_tok TFalse (lex rest) else None
         | _ \<Rightarrow> None)
      else if c = CHR ''n'' then
        (case cs of
           x # y # z # rest \<Rightarrow> if [x, y, z] = ''ull'' then cons_tok TNull (lex rest) else None
         | _ \<Rightarrow> None)
      else None)"
| "lex_str acc [] = None"
| "lex_str acc (c # cs) =
     (if c = CHR 0x22 then cons_tok (TStr (rev acc)) (lex cs)
      else if c = CHR 0x5C then lex_esc acc cs
      else if of_char c < (32 :: nat) then None
      else lex_str (c # acc) cs)"
| "lex_esc acc [] = None"
| "lex_esc acc (c # cs) =
     (if c = CHR 0x22 then lex_str (CHR 0x22 # acc) cs
      else if c = CHR 0x5C then lex_str (CHR 0x5C # acc) cs
      else if c = CHR ''/'' then lex_str (CHR ''/'' # acc) cs
      else if c = CHR ''b'' then lex_str (CHR 0x08 # acc) cs
      else if c = CHR ''f'' then lex_str (CHR 0x0C # acc) cs
      else if c = CHR ''n'' then lex_str (CHR 0x0A # acc) cs
      else if c = CHR ''r'' then lex_str (CHR 0x0D # acc) cs
      else if c = CHR ''t'' then lex_str (CHR 0x09 # acc) cs
      else if c = CHR ''u'' then
        (case cs of
           x # y # z # w # rest \<Rightarrow>
             (case hex4 x y z w of
                Some n \<Rightarrow> if n < 256 then lex_str (char_of n # acc) rest else None
              | None \<Rightarrow> None)
         | _ \<Rightarrow> None)
      else None)"
| "lex_num neg zero n [] = Some [num_token neg n]"
| "lex_num neg zero n (c # cs) =
     (if is_digit c then (if zero then None else lex_num neg False (10 * n + digit_val c) cs)
      else if json_ws c then cons_tok (num_token neg n) (lex cs)
      else if c = CHR '','' then cons_tok (num_token neg n) (cons_tok TComma (lex cs))
      else if c = CHR '']'' then cons_tok (num_token neg n) (cons_tok TRBracket (lex cs))
      else if c = CHR ''}'' then cons_tok (num_token neg n) (cons_tok TRBrace (lex cs))
      else None)"

text \<open>An array index as a property key: the decimal numeral of a number below \<open>2^32 - 1\<close>.\<close>

definition is_index :: "string \<Rightarrow> bool" where
  "is_index k = (k \<noteq> [] \<and> list_all is_digit k \<and> (k = ''0'' \<or> hd k \<noteq> CHR ''0'') \<and> int (read_nat k) < 4294967295)"

text \<open>
  \<^verbatim>\<open>CreateDataProperty\<close>: a key that is already there keeps its place and takes the new
  value, a new key goes to the end.
\<close>

fun put :: "string \<Rightarrow> jsval \<Rightarrow> (string \<times> jsval) list \<Rightarrow> (string \<times> jsval) list" where
  "put k v [] = [(k, v)]"
| "put k v ((k', v') # kvs) = (if k = k' then (k, v) # kvs else (k', v') # put k v kvs)"

text \<open>The order in which an object enumerates its properties: the array indices in
  ascending order, then the other keys in the order of their creation.\<close>

definition property_order_of :: "(string \<times> jsval) list \<Rightarrow> (string \<times> jsval) list" where
  "property_order_of kvs =
     sort_key (\<lambda>kv. read_nat (fst kv)) (filter (\<lambda>kv. is_index (fst kv)) kvs)
       @ filter (\<lambda>kv. \<not> is_index (fst kv)) kvs"

definition object_of :: "(string \<times> jsval) list \<Rightarrow> jsval" where
  "object_of members = JObj (property_order_of (foldl (\<lambda>obj kv. put (fst kv) (snd kv) obj) [] members))"

text \<open>
  The parser reads the tokens with a stack of the arrays and objects that are open: the
  elements read so far (reversed), and for an object also the key whose value is awaited.
  \<open>parse_value\<close> expects a value; \<open>parse_after\<close> has just read one.
\<close>

datatype frame = InArr "jsval list" | InObj "(string \<times> jsval) list" string

fun parse_value :: "frame list \<Rightarrow> token list \<Rightarrow> jsval option"
  and parse_after :: "jsval \<Rightarrow> frame list \<Rightarrow> token list \<Rightarrow> jsval option"
where
  "parse_value st [] = None"
| "parse_value st (t # ts) =
     (case t of
        TNull \<Rightarrow> parse_after JNull st ts
      | TTrue \<Rightarrow> parse_after (JBool True) st ts
      | TFalse \<Rightarrow> parse_after (JBool False) st ts
      | TNum n \<Rightarrow> parse_after (JNum n) st ts
      | TStr s \<Rightarrow> parse_after (JStr s) st ts
      | TLBracket \<Rightarrow>
          (case ts of
             TRBracket # ts' \<Rightarrow> parse_after (JArr []) st ts'
           | _ \<Rightarrow> parse_value (InArr [] # st) ts)
      | TLBrace \<Rightarrow>
          (case ts of
             TRBrace # ts' \<Rightarrow> parse_after (JObj []) st ts'
           | TStr k # TColon # ts' \<Rightarrow> parse_value (InObj [] k # st) ts'
           | _ \<Rightarrow> None)
      | _ \<Rightarrow> None)"
| "parse_after v [] ts = (if ts = [] then Some v else None)"
| "parse_after v (InArr acc # st) [] = None"
| "parse_after v (InArr acc # st) (t # ts) =
     (case t of
        TComma \<Rightarrow> parse_value (InArr (v # acc) # st) ts
      | TRBracket \<Rightarrow> parse_after (JArr (rev (v # acc))) st ts
      | _ \<Rightarrow> None)"
| "parse_after v (InObj acc k # st) [] = None"
| "parse_after v (InObj acc k # st) (t # ts) =
     (case t of
        TComma \<Rightarrow>
          (case ts of
             TStr k' # TColon # ts' \<Rightarrow> parse_value (InObj ((k, v) # acc) k' # st) ts'
           | _ \<Rightarrow> None)
      | TRBrace \<Rightarrow> parse_after (object_of (rev ((k, v) # acc))) st ts
      | _ \<Rightarrow> None)"

definition JSON_parse :: "string \<Rightarrow> jsval option" where
  "JSON_parse s = (case lex s of None \<Rightarrow> None | Some ts \<Rightarrow> parse_value [] ts)"


subsection \<open>Values as the runtime builds them\<close>

text \<open>The tokens of the text that \<^verbatim>\<open>JSON.stringify\<close> writes for a value.\<close>

fun join_tokens :: "token list list \<Rightarrow> token list" where
  "join_tokens [] = []"
| "join_tokens [x] = x"
| "join_tokens (x # y # ys) = x @ TComma # join_tokens (y # ys)"

fun tokens :: "jsval \<Rightarrow> token list" where
  "tokens JNull = [TNull]"
| "tokens (JBool b) = [if b then TTrue else TFalse]"
| "tokens (JNum n) = [TNum n]"
| "tokens (JStr s) = [TStr s]"
| "tokens (JArr xs) = TLBracket # join_tokens (map tokens xs) @ [TRBracket]"
| "tokens (JObj kvs) =
     TLBrace # join_tokens (map (\<lambda>kv. TStr (fst kv) # TColon # tokens (snd kv)) kvs) @ [TRBrace]"

text \<open>
  The lists that are objects of the runtime: the keys are distinct and in the order of
  enumeration (the array indices first, ascending).
\<close>

definition property_order :: "(string \<times> jsval) list \<Rightarrow> bool" where
  "property_order kvs =
     (distinct (map fst kvs)
      \<and> sorted_wrt (<) (map (\<lambda>kv. read_nat (fst kv)) (takeWhile (\<lambda>kv. is_index (fst kv)) kvs))
      \<and> list_all (\<lambda>kv. \<not> is_index (fst kv)) (dropWhile (\<lambda>kv. is_index (fst kv)) kvs))"

fun js_value :: "jsval \<Rightarrow> bool" where
  "js_value (JArr xs) = list_all js_value xs"
| "js_value (JObj kvs) = (property_order kvs \<and> list_all (\<lambda>kv. js_value (snd kv)) kvs)"
| "js_value _ = True"

text \<open>What may follow a value inside a JSON text written by \<^verbatim>\<open>JSON.stringify\<close>.\<close>

definition delim :: "string \<Rightarrow> bool" where
  "delim rest = (case rest of [] \<Rightarrow> True | c # cs \<Rightarrow> c = CHR '','' \<or> c = CHR '']'' \<or> c = CHR ''}'')"

section \<open>Notions of the specification\<close>

text \<open>
  ``The body contains \<open>p\<close>, matched case-insensitively'': some piece of the body equals
  \<open>p\<close> up to the case of its letters.
\<close>

definition contains_ignoring_case :: "string \<Rightarrow> string \<Rightarrow> bool" where
  "contains_ignoring_case s p = (\<exists>u w v. s = u @ w @ v \<and> toLowerCase w = toLowerCase p)"

text \<open>
  The shapes of a payload that the extractor recognises (section 4.2 of the
  specification): a plain string, an \<^verbatim>\<open>output\<close> field, a first element of a
  \<^verbatim>\<open>results\<close> sequence, a first element of a \<^verbatim>\<open>choices\<close> sequence, an embedded
  error descriptor.
\<close>

definition has_output :: "jsval \<Rightarrow> bool" where
  "has_output v = truthy_opt (js_prop v ''output'')"

definition has_first :: "string \<Rightarrow> jsval \<Rightarrow> bool" where
  "has_first k v = (case js_prop v k of Some (JArr (x # xs)) \<Rightarrow> truthy x | _ \<Rightarrow> False)"

definition has_error_descriptor :: "jsval \<Rightarrow> bool" where
  "has_error_descriptor v =
     (case js_prop v ''detail'' of Some d \<Rightarrow> truthy d \<and> truthy_opt (js_prop d ''error'') | None \<Rightarrow> False)"

definition recognized_shape :: "jsval \<Rightarrow> bool" where
  "recognized_shape v =
     (isString v \<or> has_output v \<or> has_first ''results'' v \<or> has_first ''choices'' v
      \<or> has_error_descriptor v)"


section \<open>Auxiliary lemmas\<close>

subsection \<open>Outcomes\<close>

lemma and_then_Value: "and_then x f = Value y \<longleftrightarrow> (\<exists>v. x = Value v \<and> f v = Value y)"
  by (cases x) simp_all

lemma map_outcome_Value: "map_outcome f x = Value y \<longleftrightarrow> (\<exists>v. x = Value v \<and> y = f v)"
  by (cases x) (auto simp: map_outcome_def)

lemma of_option_Value: "of_option x = Value y \<longleftrightarrow> x = Some y"
  by (cases x) simp_all

lemma in_order_map:
  "(\<And>x. x \<in> set xs \<Longrightarrow> f x = Value (g x)) \<Longrightarrow> in_order (map f xs) = Value (map g xs)"
  by (induction xs) simp_all

subsection \<open>Conversions\<close>

lemma destructure_obj:
  "destructure (Some (JObj kvs)) =
     Inr \<lparr> genre = field_or (JObj kvs) ''genre'' (JStr ''fantasy''),
           characters = field_or (JObj kvs) ''characters'' (JArr []),
           paragraphs = field_or (JObj kvs) ''paragraphs'' (JNum 3),
           imagesPerParagraph = field_or (JObj kvs) ''imagesPerParagraph'' (JBool False) \<rparr>"
  by (simp add: destructure_def)

lemma Number_pos_truthy: "Number p = Value (Fin N) \<Longrightarrow> 1 \<le> N \<Longrightarrow> truthy p"
  by (cases p)
    (auto simp: of_option_Value StringToNumber_def trim_def safe_integer_def split: if_splits)

lemma falsy_ToString: "\<not> truthy v \<Longrightarrow> \<exists>s. ToString v = Value s"
  by (cases v) (simp_all add: Number_toString_def)

lemma join_from_strings: "join_from sep (map JStr ss) = Value (join_strs sep ss)"
  by (induction sep ss rule: join_strs.induct) simp_all

text \<open>Line 59 throws nothing exactly when its three conversions return.\<close>

lemma prompt_parts:
  "prompt rq cs = Value pr \<Longrightarrow>
     \<exists>m g c. Number (paragraphs rq) = Value m \<and> ToString (genre rq) = Value g \<and> ToString cs = Value c"
  by (auto simp: prompt_def and_then_Value)

lemma prompt_value:
  assumes "Number (paragraphs rq) = Value (Fin N)" "\<bar>N\<bar> \<le> 9007199254740992"
    and "ToString (genre rq) = Value g" "ToString cs = Value c"
  shows "\<exists>pr. prompt rq cs = Value pr"
  using assms by (simp add: prompt_def Number_toString_def)

lemma characters_or_default:
  "ToString (or_else cs (JStr ''characters'')) = Value c \<Longrightarrow> \<exists>c'. ToString cs = Value c'"
  using falsy_ToString [of cs] by (cases "truthy cs") (simp_all add: or_else_def)

lemma default_characters:
  "ToString cs = Value c' \<Longrightarrow> \<exists>c. ToString (or_else cs (JStr ''characters'')) = Value c"
  by (simp add: or_else_def)

lemma dummy_count_value: "Number (paragraphs rq) = Value m \<Longrightarrow> \<exists>n. dummy_count rq = Value n"
  by (simp add: dummy_count_def or_else_def map_outcome_def)

subsection \<open>The synthetic paragraphs\<close>

lemma paragraphsArr_value:
  assumes "dummy_count rq = Value n" "int n < 4294967296"
    and "ToString (genre rq) = Value g" "ToString (or_else cs (JStr ''characters'')) = Value c"
  shows "paragraphsArr word rq cs =
           Value (map (\<lambda>i. ''Paragraph '' @ show_nat (i + 1) @ '': A '' @ word @ '' '' @ g
                            @ '' scene featuring '' @ c @ ''.'') [0 ..< n])"
proof -
  have "dummy_paragraph word rq cs i =
          Value (''Paragraph '' @ show_nat (i + 1) @ '': A '' @ word @ '' '' @ g
                 @ '' scene featuring '' @ c @ ''.'')" for i
    using assms(3,4) by (simp add: dummy_paragraph_def)
  then have "in_order (map (dummy_paragraph word rq cs) [0 ..< n]) =
          Value (map (\<lambda>i. ''Paragraph '' @ show_nat (i + 1) @ '': A '' @ word @ '' '' @ g
                            @ '' scene featuring '' @ c @ ''.'') [0 ..< n])"
    by (intro in_order_map)
  then show ?thesis using assms(1,2) by (simp add: paragraphsArr_def Array_from_def)
qed

text \<open>A length from \<open>2^32\<close>: the array constructor throws before any paragraph is made.\<close>

lemma paragraphsArr_range:
  "dummy_count rq = Value n \<Longrightarrow> 4294967296 \<le> int n \<Longrightarrow>
     paragraphsArr word rq cs = Thrown invalid_array_length"
  by (simp add: paragraphsArr_def Array_from_def)

subsection \<open>Substrings\<close>

lemma starts_with_iff: "starts_with s p \<longleftrightarrow> (\<exists>v. s = p @ v)"
  by (induction s p rule: starts_with.induct) auto

lemma str_includes_iff: "str_includes s p \<longleftrightarrow> (\<exists>u v. s = u @ p @ v)"
proof (induction s)
  case Nil
  then show ?case by auto
next
  case (Cons c cs)
  show ?case
  proof
    assume "str_includes (c # cs) p"
    then consider "starts_with (c # cs) p" | "str_includes cs p" by auto
    then show "\<exists>u v. c # cs = u @ p @ v"
    proof cases
      case 1
      then obtain v where "c # cs = p @ v" by (auto simp: starts_with_iff)
      then have "c # cs = [] @ p @ v" by simp
      then show ?thesis by blast
    next
      case 2
      then obtain u v where "cs = u @ p @ v" using Cons.IH by blast
      then have "c # cs = (c # u) @ p @ v" by simp
      then show ?thesis by blast
    qed
  next
    assume "\<exists>u v. c # cs = u @ p @ v"
    then obtain u v where uv: "c # cs = u @ p @ v" by blast
    show "str_includes (c # cs) p"
    proof (cases u)
      case Nil
      then have "starts_with (c # cs) p" using uv by (auto simp: starts_with_iff)
      then show ?thesis by simp
    next
      case (Cons a u')
      then have "cs = u' @ p @ v" using uv by simp
      then have "str_includes cs p" using Cons.IH by blast
      then show ?thesis by simp
    qed
  qed
qed

text \<open>The test of line 94 decides the notion of the specification.\<close>

lemma contains_ignoring_case_code:
  "contains_ignoring_case s p \<longleftrightarrow> str_includes (toLowerCase s) (toLowerCase p)"
proof
  assume "contains_ignoring_case s p"
  then obtain u w v where "s = u @ w @ v" "toLowerCase w = toLowerCase p"
    by (auto simp: contains_ignoring_case_def)
  then have "toLowerCase s = toLowerCase u @ toLowerCase p @ toLowerCase v"
    by (simp add: toLowerCase_def)
  then show "str_includes (toLowerCase s) (toLowerCase p)"
    unfolding str_includes_iff by blast
next
  assume "str_includes (toLowerCase s) (toLowerCase p)"
  then obtain u' v' where "map lower_char s = u' @ toLowerCase p @ v'"
    unfolding str_includes_iff toLowerCase_def by blast
  then have "\<exists>us vs. s = us @ vs \<and> u' = map lower_char us \<and> toLowerCase p @ v' = map lower_char vs"
    by (simp add: map_eq_append_conv)
  then obtain u r where s: "s = u @ r" and r: "toLowerCase p @ v' = map lower_char r"
    by blast
  from r have "\<exists>us vs. r = us @ vs \<and> toLowerCase p = map lower_char us \<and> v' = map lower_char vs"
    by (simp add: append_eq_map_conv)
  then obtain w v where "r = w @ v" "map lower_char w = toLowerCase p"
    by auto
  with s show "contains_ignoring_case s p"
    unfolding contains_ignoring_case_def toLowerCase_def by blast
qed

lemma lower_literals: "toLowerCase ''balance'' = ''balance''" "toLowerCase ''top-up'' = ''top-up''"
  by (simp_all add: toLowerCase_def lower_char_def)

subsection \<open>The responses\<close>

lemma js_prop_story_response: "js_prop (http_body (story_response s t imgs)) ''raw'' = Some t"
  by (simp add: story_response_def)

lemma js_prop_dummy_response: "js_prop (http_body (dummy_response p ps)) ''raw'' = None"
  by (simp add: dummy_response_def)

lemma dummy_ne_story: "dummy_response p ps \<noteq> story_response s t imgs"
  using js_prop_story_response [of s t imgs] js_prop_dummy_response [of p ps] by auto

text \<open>The handler on its paths, once lines 55 to 59 have thrown nothing.\<close>

lemma generate_story_no_key:
  assumes "DEEPINFRA_API_KEY cfg = []" "DEV_FALLBACK cfg"
    and "destructure body = Inr rq" "charStr rq = Value cs" "prompt rq cs = Value pr"
    and "paragraphsArr ''short'' rq cs = Value ps"
  shows "generate_story cfg body text_fetch image_fetch =
           Some (dummy_response ''Preface: This is a placeholder summary.'' ps)"
  using assms by (simp add: generate_story_def handle_def no_key_response_def map_outcome_def)

lemma generate_story_failed:
  assumes "DEEPINFRA_API_KEY cfg \<noteq> []" "DEV_FALLBACK cfg"
    and "destructure body = Inr rq" "charStr rq = Value cs" "prompt rq cs = Value pr"
    and "text_call text_fetch = Threw e"
    and "paragraphsArr ''fallback'' rq cs = Value ps"
  shows "generate_story cfg body text_fetch image_fetch =
           Some (dummy_response ''Preface: This is a fallback placeholder.'' ps)"
  using assms by (simp add: generate_story_def handle_def fallback_response_def map_outcome_def)

lemma generate_story_payload:
  assumes "\<not> (DEEPINFRA_API_KEY cfg = [] \<and> DEV_FALLBACK cfg)"
    and "destructure body = Inr rq" "charStr rq = Value cs" "prompt rq cs = Value pr"
    and "text_call text_fetch = Payload textResp"
    and "truthy (imagesPerParagraph rq)"
    and "paraArr (storyText_of textResp) (paragraphs rq) = Value ps"
    and "ToString (storyText_of textResp) = Value story"
  shows "generate_story cfg body text_fetch image_fetch =
           map_option (story_response story textResp) (image_loop image_fetch 0 ps [])"
  using assms
  by (cases "image_loop image_fetch 0 ps []")
    (auto simp: generate_story_def handle_def after_text_def generate_images_def)

text \<open>
  The paths on which no image call is made: the outcome of the handler does not depend
  on the image service, and a response it sends is a synthetic story.
\<close>

lemma fallback_paths:
  assumes fb: "DEV_FALLBACK cfg"
    and path: "DEEPINFRA_API_KEY cfg = [] \<or> (\<exists>e. text_call text_fetch = Threw e)"
    and body: "destructure body = Inr rq"
  shows "\<exists>res. (\<forall>imf. handle cfg body text_fetch imf = res)
              \<and> (\<forall>r. res = Value r \<longrightarrow> (\<exists>p ps. r = dummy_response p ps))"
proof (cases "charStr rq")
  case (Value cs)
  note cs = this
  show ?thesis
  proof (cases "prompt rq cs")
    case (Value pr)
    show ?thesis
    proof (cases "DEEPINFRA_API_KEY cfg = []")
      case True
      then have "\<forall>imf. handle cfg body text_fetch imf = no_key_response rq cs"
        using fb body cs Value by (simp add: handle_def)
      then show ?thesis by (auto simp: no_key_response_def map_outcome_Value)
    next
      case False
      then obtain e where "text_call text_fetch = Threw e" using path by blast
      then have "\<forall>imf. handle cfg body text_fetch imf = fallback_response rq cs"
        using False fb body cs Value by (simp add: handle_def)
      then show ?thesis by (auto simp: fallback_response_def map_outcome_Value)
    qed
  qed (use body cs in \<open>simp_all add: handle_def\<close>)
qed (use body in \<open>simp_all add: handle_def\<close>)

subsection \<open>The image loop\<close>




lemma image_loop_thrown:
  "k < length ps \<Longrightarrow> (\<forall>j < k. image_iteration (ps ! j) (f (i + j)) = Value (s (i + j))) \<Longrightarrow>
   image_iteration (ps ! k) (f (i + k)) = Thrown e \<Longrightarrow>
     image_loop f i ps images = Some (images @ map s [i ..< i + k] @ [image_generation_failed e])"
proof (induction ps arbitrary: i images k)
  case Nil
  then show ?case by simp
next
  case (Cons p ps)
  show ?case
  proof (cases k)
    case 0
    then show ?thesis using Cons.prems by simp
  next
    case (Suc k')
    from Cons.prems Suc have here: "image_iteration p (f i) = Value (s i)" by force
    have k': "k' < length ps" using Cons.prems Suc by simp
    have rest: "\<forall>j < k'. image_iteration (ps ! j) (f (Suc i + j)) = Value (s (Suc i + j))"
    proof (intro allI impI)
      fix j assume "j < k'"
      then have "Suc j < k" using Suc by simp
      with Cons.prems have "image_iteration ((p # ps) ! Suc j) (f (i + Suc j)) = Value (s (i + Suc j))"
        by blast
      then show "image_iteration (ps ! j) (f (Suc i + j)) = Value (s (Suc i + j))" by simp
    qed
    have thrown: "image_iteration (ps ! k') (f (Suc i + k')) = Thrown e" using Cons.prems Suc by simp
    have "image_loop f (Suc i) ps (images @ [s i]) =
            Some ((images @ [s i]) @ map s [Suc i ..< Suc i + k'] @ [image_generation_failed e])"
      using k' rest thrown by (rule Cons.IH)
    then show ?thesis using here Suc by (simp add: upt_rec)
  qed
qed

lemma image_loop_cong:
  "(\<forall>j \<le> k. f' (i + j) = f (i + j)) \<Longrightarrow> k < length ps \<Longrightarrow>
   image_iteration (ps ! k) (f (i + k)) = Thrown e \<Longrightarrow>
     image_loop f' i ps images = image_loop f i ps images"
proof (induction ps arbitrary: i images k)
  case Nil
  then show ?case by simp
next
  case (Cons p ps)
  from Cons.prems have same: "f' i = f i" by force
  show ?case
  proof (cases "image_iteration p (f i)")
    case (Thrown a)
    then show ?thesis using same by simp
  next
    case Outside
    then show ?thesis using same by simp
  next
    case (Value slot)
    then obtain k' where k: "k = Suc k'" using Cons.prems by (cases k) auto
    have "\<forall>j \<le> k'. f' (Suc i + j) = f (Suc i + j)"
    proof (intro allI impI)
      fix j assume "j \<le> k'"
      then have "Suc j \<le> k" using k by simp
      with Cons.prems have "f' (i + Suc j) = f (i + Suc j)" by blast
      then show "f' (Suc i + j) = f (Suc i + j)" by simp
    qed
    moreover have "k' < length ps" using Cons.prems k by simp
    moreover have "image_iteration (ps ! k') (f (Suc i + k')) = Thrown e" using Cons.prems k by simp
    ultimately have "image_loop f' (Suc i) ps (images @ [slot]) = image_loop f (Suc i) ps (images @ [slot])"
      by (rule Cons.IH)
    then show ?thesis using same Value by simp
  qed
qed


lemma split_abc: "split_newlines [CHR ''a'', CHR 0x0A, CHR ''b'', CHR 0x0A, CHR ''c''] = [''a'', ''b'', ''c'']"
  by (simp add: split_newlines_def)

lemma trim_letters: "trim ''a'' = ''a''" "trim ''b'' = ''b''" "trim ''c'' = ''c''"
  by (simp_all add: trim_def is_space_def)

subsection \<open>Splitting the story\<close>

lemma trim_blank: "trim p = [] \<longleftrightarrow> list_all is_space p"
proof
  assume "trim p = []"
  then have "dropWhile is_space (rev (dropWhile is_space p)) = []" by (simp add: trim_def)
  then have "\<forall>c \<in> set (dropWhile is_space p). is_space c" by (simp add: dropWhile_eq_Nil_conv)
  then have "dropWhile is_space p = []"
    by (metis hd_dropWhile list.set_sel(1))
  then show "list_all is_space p" by (simp add: dropWhile_eq_Nil_conv list_all_iff)
next
  assume "list_all is_space p"
  then have "dropWhile is_space p = []" by (simp add: dropWhile_eq_Nil_conv list_all_iff)
  then show "trim p = []" by (simp add: trim_def del: dropWhile_eq_Nil_conv)
qed

lemma split_from_segment:
  "CHR 0x0A \<notin> set seg \<Longrightarrow> seg \<noteq> [] \<or> \<not> b \<Longrightarrow>
     split_from b cur (seg @ rest) = split_from False (rev seg @ cur) rest"
proof (induction seg arbitrary: b cur)
  case Nil
  then show ?case by simp
next
  case (Cons c seg)
  then have "split_from False (c # cur) (seg @ rest) = split_from False (rev seg @ c # cur) rest"
    by (intro Cons.IH) auto
  moreover have "c \<noteq> CHR 0x0A" using Cons.prems by auto
  ultimately show ?case by simp
qed

lemma split_from_run_skip:
  "set run \<subseteq> {CHR 0x0A} \<Longrightarrow> split_from True [] (run @ rest) = split_from True [] rest"
  by (induction run) auto

lemma split_from_run:
  "run \<noteq> [] \<Longrightarrow> set run \<subseteq> {CHR 0x0A} \<Longrightarrow>
     split_from False cur (run @ rest) = rev cur # split_from True [] rest"
  by (cases run) (auto simp: split_from_run_skip)

lemma split_from_after_run:
  "rest = [] \<or> hd rest \<noteq> CHR 0x0A \<Longrightarrow> split_from True [] rest = split_from False [] rest"
  by (cases rest) auto

lemma split_newlines_segment: "CHR 0x0A \<notin> set seg \<Longrightarrow> split_newlines seg = [seg]"
  using split_from_segment [of seg False "[]" "[]"] by (simp add: split_newlines_def)

lemma split_newlines_run:
  assumes "CHR 0x0A \<notin> set seg" "run \<noteq> []" "set run \<subseteq> {CHR 0x0A}" "rest = [] \<or> hd rest \<noteq> CHR 0x0A"
  shows "split_newlines (seg @ run @ rest) = seg # split_newlines rest"
proof -
  have "split_from False [] (seg @ run @ rest) = split_from False (rev seg @ []) (run @ rest)"
    using assms(1) by (intro split_from_segment) auto
  also have "\<dots> = rev (rev seg @ []) # split_from True [] rest"
    using assms(2,3) by (rule split_from_run)
  also have "\<dots> = seg # split_from False [] rest"
    using assms(4) by (simp add: split_from_after_run)
  finally show ?thesis by (simp add: split_newlines_def)
qed

subsection \<open>The extractor\<close>

lemma unrecognized_attempts:
  assumes "\<not> recognized_shape v"
  shows "from_output v = None" "from_results v = None" "from_choices v = None" "from_detail v = None"
proof -
  have o: "\<not> has_output v" and r: "\<not> has_first ''results'' v" and c: "\<not> has_first ''choices'' v"
    and d: "\<not> has_error_descriptor v"
    using assms by (simp_all add: recognized_shape_def)
  show "from_output v = None"
    using o by (auto simp: has_output_def from_output_def split: option.splits)
  have first: "array_first (js_prop v k) = None" if "\<not> has_first k v" for k
  proof (cases "js_prop v k")
    case None
    then show ?thesis by simp
  next
    case (Some a)
    then show ?thesis using that
      by (cases a; cases "case a of JArr xs \<Rightarrow> xs | _ \<Rightarrow> []") (auto simp: has_first_def split: list.splits)
  qed
  show "from_results v = None" using first [OF r] by (simp add: from_results_def)
  show "from_choices v = None" using first [OF c] by (simp add: from_choices_def)
  show "from_detail v = None"
    using d by (auto simp: has_error_descriptor_def from_detail_def split: option.splits)
qed

section \<open>The round trip through JSON\<close>

subsection \<open>Decimal numerals\<close>

lemma digit_char_props:
  "d < 10 \<Longrightarrow> is_digit (digit_char d) \<and> digit_val (digit_char d) = d \<and> (digit_char d = CHR ''0'' \<longleftrightarrow> d = 0)"
proof -
  assume "d < 10"
  then have "d \<in> {0,1,2,3,4,5,6,7,8,9}" by auto
  then show ?thesis
    by (auto simp: digit_char_def is_digit_def digit_val_def)
qed

lemma show_nat_digits: "list_all is_digit (show_nat n)"
  by (induction n rule: show_nat.induct) (subst show_nat.simps, simp add: digit_char_props)

lemma show_nat_nonempty: "show_nat n \<noteq> []"
  by (subst show_nat.simps) simp

lemma read_nat_snoc: "read_nat (ds @ [c]) = 10 * read_nat ds + digit_val c"
  by (simp add: read_nat_def)

lemma read_show_nat: "read_nat (show_nat n) = n"
proof (induction n rule: show_nat.induct)
  case (1 n)
  show ?case
  proof (cases "n < 10")
    case True
    then show ?thesis by (subst show_nat.simps) (simp add: read_nat_def digit_char_props)
  next
    case False
    then have "read_nat (show_nat (n div 10)) = n div 10" using 1 by simp
    then show ?thesis using False
      by (subst show_nat.simps) (simp add: read_nat_snoc digit_char_props)
  qed
qed

lemma hd_show_nat: "hd (show_nat n) = CHR ''0'' \<longleftrightarrow> n = 0"
proof (induction n rule: show_nat.induct)
  case (1 n)
  show ?case
  proof (cases "n < 10")
    case True
    then show ?thesis by (subst show_nat.simps) (simp add: digit_char_props)
  next
    case False
    then have "hd (show_nat (n div 10)) = CHR ''0'' \<longleftrightarrow> n div 10 = 0" using 1 by simp
    moreover have "n div 10 \<noteq> 0" using False by simp
    ultimately show ?thesis using False
      by (subst show_nat.simps) (simp add: show_nat_nonempty)
  qed
qed

lemma show_nat_zero: "show_nat 0 = ''0''"
  by (subst show_nat.simps) (simp add: digit_char_def)


subsection \<open>Lexing a number\<close>

lemma digit_not_special:
  "is_digit c \<Longrightarrow> \<not> json_ws c \<and> c \<noteq> CHR ''{'' \<and> c \<noteq> CHR ''}'' \<and> c \<noteq> CHR ''['' \<and> c \<noteq> CHR '']''
     \<and> c \<noteq> CHR '':'' \<and> c \<noteq> CHR '','' \<and> c \<noteq> CHR 0x22 \<and> c \<noteq> CHR ''-''"
  by (auto simp: is_digit_def json_ws_def)

lemma lex_digit: "is_digit c \<Longrightarrow> lex (c # cs) = lex_num False (c = CHR ''0'') (digit_val c) cs"
  using digit_not_special [of c] by simp

lemma lex_num_digits:
  "list_all is_digit ds \<Longrightarrow>
     lex_num neg False n (ds @ rest) = lex_num neg False (foldl (\<lambda>a c. 10 * a + digit_val c) n ds) rest"
  by (induction ds arbitrary: n) auto

lemma lex_num_delim:
  "delim rest \<Longrightarrow> lex rest = Some ts \<Longrightarrow> lex_num neg zero n rest = Some (num_token neg n # ts)"
  by (cases rest) (auto simp: delim_def cons_tok_def is_digit_def json_ws_def)

lemma lex_num_show_nat:
  assumes "delim rest" "lex rest = Some ts" "show_nat n = d # ds"
  shows "lex_num neg (d = CHR ''0'') (digit_val d) (ds @ rest) = Some (num_token neg n # ts)"
proof (cases "n = 0")
  case True
  then have "d = CHR ''0''" "ds = []" using assms(3) by (simp_all add: show_nat_zero)
  then show ?thesis using assms(1,2) True lex_num_delim [of rest ts neg True 0]
    by (simp add: digit_val_def)
next
  case False
  have "hd (show_nat n) \<noteq> CHR ''0''" using False by (simp add: hd_show_nat)
  then have d: "d \<noteq> CHR ''0''" using assms(3) by simp
  have digits: "list_all is_digit ds" using show_nat_digits [of n] assms(3) by simp
  have "read_nat (d # ds) = n" using read_show_nat [of n] assms(3) by simp
  then have val: "foldl (\<lambda>a c. 10 * a + digit_val c) (digit_val d) ds = n"
    by (simp add: read_nat_def)
  show ?thesis
    using d lex_num_digits [OF digits, of neg "digit_val d" rest] val
      lex_num_delim [OF assms(1,2), of neg False n]
    by simp
qed

lemma lex_show_int:
  assumes "delim rest" "lex rest = Some ts"
  shows "lex (show_int i @ rest) = Some (TNum i # ts)"
proof -
  obtain d ds where dds: "show_nat (nat \<bar>i\<bar>) = d # ds"
    using show_nat_nonempty [of "nat \<bar>i\<bar>"] by (cases "show_nat (nat \<bar>i\<bar>)") auto
  have digit: "is_digit d" using show_nat_digits [of "nat \<bar>i\<bar>"] dds by simp
  show ?thesis
  proof (cases "i < 0")
    case True
    then have "show_int i @ rest = CHR ''-'' # d # ds @ rest"
      using dds by (simp add: show_int_def abs_if)
    moreover have "lex (CHR ''-'' # d # ds @ rest) = lex_num True (d = CHR ''0'') (digit_val d) (ds @ rest)"
      using digit by (simp add: json_ws_def)
    moreover have "num_token True (nat \<bar>i\<bar>) = TNum i" using True by (simp add: num_token_def)
    ultimately show ?thesis using lex_num_show_nat [OF assms dds, of True] by simp
  next
    case False
    then have "show_int i @ rest = d # ds @ rest"
      using dds by (simp add: show_int_def abs_if)
    moreover have "num_token False (nat \<bar>i\<bar>) = TNum i" using False by (simp add: num_token_def)
    ultimately show ?thesis using lex_num_show_nat [OF assms dds, of False] lex_digit [OF digit]
      by simp
  qed
qed


subsection \<open>Lexing a string\<close>

lemma hex_val_hex_char: "d < 16 \<Longrightarrow> hex_val (hex_char d) = Some d"
proof -
  assume "d < 16"
  then have "d \<in> {0,1,2,3,4,5,6,7,8,9,10,11,12,13,14,15}" by clarsimp arith
  then show ?thesis by (auto simp: hex_char_def hex_val_def)
qed

lemma hex4_control:
  assumes "n < 32"
  shows "hex4 CHR ''0'' CHR ''0'' (hex_char (n div 16)) (hex_char (n mod 16)) = Some n"
proof -
  have "n div 16 < 16" using assms by simp
  then have a: "hex_val (hex_char (n div 16)) = Some (n div 16)" by (rule hex_val_hex_char)
  have b: "hex_val (hex_char (n mod 16)) = Some (n mod 16)" by (rule hex_val_hex_char) simp
  have z: "hex_val CHR ''0'' = Some 0" by (simp add: hex_val_def)
  show ?thesis by (simp add: hex4_def a b z)
qed

lemma lex_str_quote_char: "lex_str acc (quote_char c @ cs) = lex_str (c # acc) cs"
proof -
  consider (short) "c \<in> {CHR 0x08, CHR 0x09, CHR 0x0A, CHR 0x0C, CHR 0x0D, CHR 0x22, CHR 0x5C}"
    | (control) "c \<notin> {CHR 0x08, CHR 0x09, CHR 0x0A, CHR 0x0C, CHR 0x0D, CHR 0x22, CHR 0x5C}" "of_char c < (32::nat)"
    | (plain) "c \<notin> {CHR 0x08, CHR 0x09, CHR 0x0A, CHR 0x0C, CHR 0x0D, CHR 0x22, CHR 0x5C}" "\<not> of_char c < (32::nat)"
    by blast
  then show ?thesis
  proof cases
    case short
    then show ?thesis by (auto simp: quote_char_def)
  next
    case control
    have "of_char c < (256::nat)" using control(2) by simp
    then have again: "char_of (of_char c :: nat) = c" by simp
    show ?thesis using control hex4_control [OF control(2)] again
      by (simp add: quote_char_def)
  next
    case plain
    then show ?thesis by (simp add: quote_char_def)
  qed
qed

lemma lex_str_quoted:
  "lex_str acc (concat (map quote_char s) @ CHR 0x22 # rest) = cons_tok (TStr (rev acc @ s)) (lex rest)"
proof (induction s arbitrary: acc)
  case Nil
  then show ?case by simp
next
  case (Cons c s)
  have "lex_str acc (concat (map quote_char (c # s)) @ CHR 0x22 # rest)
          = lex_str acc (quote_char c @ (concat (map quote_char s) @ CHR 0x22 # rest))"
    by simp
  also have "\<dots> = lex_str (c # acc) (concat (map quote_char s) @ CHR 0x22 # rest)"
    by (rule lex_str_quote_char)
  also have "\<dots> = cons_tok (TStr (rev (c # acc) @ s)) (lex rest)" by (rule Cons.IH)
  finally show ?case by simp
qed

lemma lex_quote: "lex (quote s @ rest) = cons_tok (TStr s) (lex rest)"
  using lex_str_quoted [of "[]" s rest] by (simp add: quote_def json_ws_def)


subsection \<open>Lexing a value\<close>

lemma join_strs_Cons: "join_strs sep (x # xs) = x @ concat (map ((@) sep) xs)"
  by (induction xs arbitrary: x) auto

lemma join_tokens_Cons: "join_tokens (x # xs) = x @ concat (map ((#) TComma) xs)"
  by (induction xs arbitrary: x) auto

lemma delim_items: "delim rest \<Longrightarrow> delim (concat (map (\<lambda>x. CHR '','' # str x) xs) @ rest)"
  by (cases xs) (simp_all add: delim_def)

lemma lex_items:
  assumes item: "\<And>x rest ts. x \<in> set xs \<Longrightarrow> delim rest \<Longrightarrow> lex rest = Some ts
                   \<Longrightarrow> lex (str x @ rest) = Some (toks x @ ts)"
    and closing: "delim rest" "lex rest = Some ts"
  shows "lex (concat (map (\<lambda>x. CHR '','' # str x) xs) @ rest)
           = Some (concat (map (\<lambda>x. TComma # toks x) xs) @ ts)"
  using item
proof (induction xs)
  case Nil
  then show ?case using closing by simp
next
  case (Cons x xs)
  let ?R = "concat (map (\<lambda>x. CHR '','' # str x) xs) @ rest"
  have "lex ?R = Some (concat (map (\<lambda>x. TComma # toks x) xs) @ ts)"
    using Cons.prems by (intro Cons.IH) auto
  moreover have "delim ?R" using closing(1) by (rule delim_items)
  ultimately have "lex (str x @ ?R) = Some (toks x @ concat (map (\<lambda>x. TComma # toks x) xs) @ ts)"
    using Cons.prems by auto
  then show ?case by (simp add: json_ws_def cons_tok_def)
qed

lemma lex_sequence:
  assumes item: "\<And>x rest ts. x \<in> set xs \<Longrightarrow> delim rest \<Longrightarrow> lex rest = Some ts
                   \<Longrightarrow> lex (str x @ rest) = Some (toks x @ ts)"
    and closing: "delim rest" "lex rest = Some ts"
  shows "lex (join_strs '','' (map str xs) @ rest) = Some (join_tokens (map toks xs) @ ts)"
proof (cases xs)
  case Nil
  then show ?thesis using closing by simp
next
  case (Cons x xs')
  let ?R = "concat (map (\<lambda>x. CHR '','' # str x) xs') @ rest"
  have "lex ?R = Some (concat (map (\<lambda>x. TComma # toks x) xs') @ ts)"
    using item closing Cons by (intro lex_items) auto
  moreover have "delim ?R" using closing(1) by (rule delim_items)
  ultimately have "lex (str x @ ?R) = Some (toks x @ concat (map (\<lambda>x. TComma # toks x) xs') @ ts)"
    using item Cons by auto
  then show ?thesis using Cons
    by (simp add: join_strs_Cons join_tokens_Cons comp_def)
qed

lemma lex_stringify:
  "delim rest \<Longrightarrow> lex rest = Some ts \<Longrightarrow> lex (JSON_stringify v @ rest) = Some (tokens v @ ts)"
proof (induction v arbitrary: rest ts)
  case JNull
  then show ?case by (simp add: json_ws_def cons_tok_def is_digit_def)
next
  case (JBool b)
  then show ?case by (simp add: json_ws_def cons_tok_def is_digit_def)
next
  case (JNum n)
  then show ?case using lex_show_int by simp
next
  case (JStr s)
  then show ?case by (simp add: lex_quote cons_tok_def)
next
  case (JArr xs)
  have closing: "delim (CHR '']'' # rest)" "lex (CHR '']'' # rest) = Some (TRBracket # ts)"
    using JArr.prems by (simp_all add: delim_def json_ws_def cons_tok_def)
  have "lex (join_strs '','' (map JSON_stringify xs) @ CHR '']'' # rest)
          = Some (join_tokens (map tokens xs) @ TRBracket # ts)"
    using JArr.IH closing by (intro lex_sequence) auto
  then show ?case by (simp add: json_ws_def cons_tok_def)
next
  case (JObj kvs)
  have closing: "delim (CHR ''}'' # rest)" "lex (CHR ''}'' # rest) = Some (TRBrace # ts)"
    using JObj.prems by (simp_all add: delim_def json_ws_def cons_tok_def)
  have member: "lex ((quote (fst kv) @ '':'' @ JSON_stringify (snd kv)) @ r)
                  = Some ((TStr (fst kv) # TColon # tokens (snd kv)) @ t)"
    if "kv \<in> set kvs" "delim r" "lex r = Some t" for kv r t
  proof -
    have "snd kv \<in> Basic_BNFs.snds kv" by (cases kv) simp
    then have "lex (JSON_stringify (snd kv) @ r) = Some (tokens (snd kv) @ t)"
      using that JObj.IH [of kv "snd kv"] by blast
    then show ?thesis by (simp add: lex_quote json_ws_def cons_tok_def)
  qed
  have "lex (join_strs '','' (map (\<lambda>kv. quote (fst kv) @ '':'' @ JSON_stringify (snd kv)) kvs) @ CHR ''}'' # rest)
          = Some (join_tokens (map (\<lambda>kv. TStr (fst kv) # TColon # tokens (snd kv)) kvs) @ TRBrace # ts)"
    using member closing by (intro lex_sequence) auto
  then show ?case by (simp add: json_ws_def cons_tok_def)
qed




subsection \<open>Objects in property order\<close>

lemma put_fresh: "k \<notin> fst ` set obj \<Longrightarrow> put k v obj = obj @ [(k, v)]"
  by (induction obj) auto

lemma foldl_put_distinct:
  "distinct (map fst (acc @ kvs)) \<Longrightarrow>
     foldl (\<lambda>obj kv. put (fst kv) (snd kv) obj) acc kvs = acc @ kvs"
proof (induction kvs arbitrary: acc)
  case Nil
  then show ?case by simp
next
  case (Cons kv kvs)
  have fresh: "fst kv \<notin> fst ` set acc" using Cons.prems by auto
  have "distinct (map fst ((acc @ [kv]) @ kvs))" using Cons.prems by simp
  then have "foldl (\<lambda>obj kv. put (fst kv) (snd kv) obj) (acc @ [kv]) kvs = (acc @ [kv]) @ kvs"
    by (rule Cons.IH)
  then show ?case using put_fresh [OF fresh, of "snd kv"] by simp
qed

lemma filter_not_dropWhile:
  assumes "\<And>x. x \<in> set (dropWhile P xs) \<Longrightarrow> \<not> P x"
  shows "filter (\<lambda>x. \<not> P x) xs = dropWhile P xs"
proof -
  have "\<forall>x \<in> set (takeWhile P xs). \<not> \<not> P x" by (blast dest: set_takeWhileD)
  then have e1: "filter (\<lambda>x. \<not> P x) (takeWhile P xs) = []"
    by (rule iffD2 [OF filter_empty_conv])
  have "\<forall>x \<in> set (dropWhile P xs). \<not> P x" using assms by blast
  then have e2: "filter (\<lambda>x. \<not> P x) (dropWhile P xs) = dropWhile P xs"
    by (rule iffD2 [OF filter_id_conv])
  have "filter (\<lambda>x. \<not> P x) xs = filter (\<lambda>x. \<not> P x) (takeWhile P xs @ dropWhile P xs)"
    by (simp only: takeWhile_dropWhile_id)
  also have "\<dots> = filter (\<lambda>x. \<not> P x) (takeWhile P xs) @ filter (\<lambda>x. \<not> P x) (dropWhile P xs)"
    by (rule filter_append)
  also have "\<dots> = dropWhile P xs" by (simp only: e1 e2 append_Nil)
  finally show ?thesis .
qed

lemma property_order_of_id:
  assumes "property_order kvs"
  shows "property_order_of kvs = kvs"
proof -
  let ?P = "\<lambda>kv. is_index (fst kv)"
  have "list_all (\<lambda>kv. \<not> ?P kv) (dropWhile ?P kvs)"
    using assms unfolding property_order_def by blast
  then have rest: "\<And>kv. kv \<in> set (dropWhile ?P kvs) \<Longrightarrow> \<not> ?P kv"
    unfolding list_all_iff by blast
  have idx: "filter ?P kvs = takeWhile ?P kvs"
    using takeWhile_eq_filter [of ?P kvs, OF rest] by (rule sym)
  have str: "filter (\<lambda>kv. \<not> ?P kv) kvs = dropWhile ?P kvs"
    using rest by (rule filter_not_dropWhile)
  have "sorted_wrt (<) (map (\<lambda>kv. read_nat (fst kv)) (takeWhile ?P kvs))"
    using assms unfolding property_order_def by blast
  then have "sorted (map (\<lambda>kv. read_nat (fst kv)) (takeWhile ?P kvs))"
    by (rule strict_sorted_imp_sorted)
  then have "sort_key (\<lambda>kv. read_nat (fst kv)) (takeWhile ?P kvs) = takeWhile ?P kvs"
    by (rule sort_key_id_if_sorted)
  then show ?thesis
    unfolding property_order_of_def idx str by (simp only: takeWhile_dropWhile_id)
qed

lemma object_of_id:
  assumes "property_order kvs"
  shows "object_of kvs = JObj kvs"
proof -
  have "distinct (map fst ([] @ kvs))" using assms by (simp add: property_order_def)
  then have "foldl (\<lambda>obj kv. put (fst kv) (snd kv) obj) [] kvs = [] @ kvs"
    by (rule foldl_put_distinct)
  then show ?thesis by (simp add: object_of_def property_order_of_id [OF assms])
qed

subsection \<open>Parsing the tokens of a value\<close>

lemma tokens_start: "\<exists>t r. tokens v = t # r \<and> t \<noteq> TRBracket \<and> t \<noteq> TRBrace"
  by (cases v) auto

lemma parse_elements:
  assumes item: "\<And>x st ts. x \<in> set xs \<Longrightarrow> parse_value st (tokens x @ ts) = parse_after x st ts"
  shows "parse_after y (InArr acc # st) (concat (map (\<lambda>x. TComma # tokens x) xs) @ TRBracket # ts)
           = parse_after (JArr (rev acc @ y # xs)) st ts"
  using item
proof (induction xs arbitrary: y acc)
  case Nil
  then show ?case by simp
next
  case (Cons x xs)
  let ?R = "concat (map (\<lambda>x. TComma # tokens x) xs) @ TRBracket # ts"
  have "parse_after y (InArr acc # st) (TComma # tokens x @ ?R)
          = parse_value (InArr (y # acc) # st) (tokens x @ ?R)"
    by simp
  also have "\<dots> = parse_after x (InArr (y # acc) # st) ?R" using Cons.prems by simp
  also have "\<dots> = parse_after (JArr (rev (y # acc) @ x # xs)) st ts"
    using Cons.prems by (intro Cons.IH) auto
  finally show ?case by simp
qed

lemma parse_members:
  assumes item: "\<And>kv st ts. kv \<in> set kvs \<Longrightarrow>
                   parse_value st (tokens (snd kv) @ ts) = parse_after (snd kv) st ts"
  shows "parse_after v (InObj acc k # st)
           (concat (map (\<lambda>kv. TComma # TStr (fst kv) # TColon # tokens (snd kv)) kvs) @ TRBrace # ts)
           = parse_after (object_of (rev acc @ (k, v) # kvs)) st ts"
  using item
proof (induction kvs arbitrary: v k acc)
  case Nil
  then show ?case by simp
next
  case (Cons kv kvs)
  let ?R = "concat (map (\<lambda>kv. TComma # TStr (fst kv) # TColon # tokens (snd kv)) kvs) @ TRBrace # ts"
  have "parse_after v (InObj acc k # st) (TComma # TStr (fst kv) # TColon # tokens (snd kv) @ ?R)
          = parse_value (InObj ((k, v) # acc) (fst kv) # st) (tokens (snd kv) @ ?R)"
    by simp
  also have "\<dots> = parse_after (snd kv) (InObj ((k, v) # acc) (fst kv) # st) ?R"
    using Cons.prems by simp
  also have "\<dots> = parse_after (object_of (rev ((k, v) # acc) @ (fst kv, snd kv) # kvs)) st ts"
    using Cons.prems by (intro Cons.IH) auto
  finally show ?case by simp
qed

lemma parse_value_open_array:
  "t \<noteq> TRBracket \<Longrightarrow> parse_value st (TLBracket # t # ts) = parse_value (InArr [] # st) (t # ts)"
  by (cases t) simp_all

lemma parse_tokens:
  "js_value v \<Longrightarrow> parse_value st (tokens v @ ts) = parse_after v st ts"
proof (induction v arbitrary: st ts)
  case (JArr xs)
  show ?case
  proof (cases xs)
    case Nil
    then show ?thesis by simp
  next
    case (Cons x xs')
    have item: "parse_value st' (tokens y @ ts') = parse_after y st' ts'" if "y \<in> set xs" for y st' ts'
      using that JArr.IH [of y] JArr.prems by (simp add: list_all_iff)
    let ?R = "concat (map (\<lambda>x. TComma # tokens x) xs') @ TRBracket # ts"
    obtain t r where t: "tokens x = t # r" "t \<noteq> TRBracket" using tokens_start by blast
    have "parse_value st (tokens (JArr xs) @ ts) = parse_value st (TLBracket # tokens x @ ?R)"
      using Cons by (simp add: join_tokens_Cons comp_def)
    also have "\<dots> = parse_value (InArr [] # st) (tokens x @ ?R)"
      using t parse_value_open_array [of t st "r @ ?R"] by simp
    also have "\<dots> = parse_after x (InArr [] # st) ?R" using item Cons by simp
    also have "\<dots> = parse_after (JArr (rev [] @ x # xs')) st ts"
      using item Cons by (intro parse_elements) auto
    finally show ?thesis using Cons by simp
  qed
next
  case (JObj kvs)
  show ?case
  proof (cases kvs)
    case Nil
    then show ?thesis by simp
  next
    case (Cons kv kvs')
    have item: "parse_value st' (tokens (snd p) @ ts') = parse_after (snd p) st' ts'"
      if "p \<in> set kvs" for p st' ts'
    proof -
      have "snd p \<in> Basic_BNFs.snds p" by (cases p) simp
      moreover have "js_value (snd p)" using that JObj.prems by (simp add: list_all_iff)
      ultimately show ?thesis using that JObj.IH [of p "snd p"] by blast
    qed
    let ?R = "concat (map (\<lambda>kv. TComma # TStr (fst kv) # TColon # tokens (snd kv)) kvs') @ TRBrace # ts"
    have "parse_value st (tokens (JObj kvs) @ ts)
            = parse_value st (TLBrace # TStr (fst kv) # TColon # tokens (snd kv) @ ?R)"
      using Cons by (simp add: join_tokens_Cons comp_def)
    also have "\<dots> = parse_value (InObj [] (fst kv) # st) (tokens (snd kv) @ ?R)" by simp
    also have "\<dots> = parse_after (snd kv) (InObj [] (fst kv) # st) ?R" using item Cons by simp
    also have "\<dots> = parse_after (object_of (rev [] @ (fst kv, snd kv) # kvs')) st ts"
      using item Cons by (intro parse_members) auto
    also have "\<dots> = parse_after (JObj kvs) st ts"
      using Cons JObj.prems by (simp add: object_of_id)
    finally show ?thesis .
  qed
qed simp_all

text \<open>Parsing what \<^verbatim>\<open>JSON.stringify\<close> wrote gives the value back.\<close>

lemma JSON_round_trip: "js_value v \<Longrightarrow> JSON_parse (JSON_stringify v) = Some v"
proof -
  assume v: "js_value v"
  have "lex (JSON_stringify v @ []) = Some (tokens v @ [])"
    by (rule lex_stringify) (simp_all add: delim_def)
  moreover have "parse_value [] (tokens v @ []) = parse_after v [] []"
    using v by (rule parse_tokens)
  ultimately show ?thesis by (simp add: JSON_parse_def)
qed

section \<open>The properties of the specification\<close>

text \<open>
  C1, as the specification states it: the extractor returns a bare string payload itself.
  The guard of line 39 comes first and the empty string is falsy: for the payload
  \<^verbatim>\<open>""\<close> the extractor returns \<^verbatim>\<open>null\<close>, and line 116 then makes the story the two
  quotation marks that \<^verbatim>\<open>JSON.stringify("")\<close> writes.
\<close>

theorem empty_string_payload:
  "extractTextFromDeepInfra (JStr []) = JNull
   \<and> extractTextFromDeepInfra (JStr []) \<noteq> JStr []
   \<and> storyText_of (JStr []) = JStr [CHR 0x22, CHR 0x22]"
  by (simp add: extractTextFromDeepInfra_def storyText_of_def quote_def)

text \<open>
  C1, amended. The extractor returns a bare string payload itself when the string is not
  empty; for the payload \<^verbatim>\<open>{results:[{content:"Y"}]}\<close> it returns \<^verbatim>\<open>"Y"\<close>; for the
  payload \<^verbatim>\<open>{choices:[{text:"X"}]}\<close> it returns \<^verbatim>\<open>"X"\<close>; for an object (any truthy
  value) of none of the recognised shapes it returns the text that \<^verbatim>\<open>JSON.stringify\<close>
  writes for it, and \<^verbatim>\<open>JSON.parse\<close> of that text is the payload again.
\<close>

theorem extractor_shapes:
  "(s \<noteq> [] \<longrightarrow> extractTextFromDeepInfra (JStr s) = JStr s)
   \<and> extractTextFromDeepInfra (JObj [(''results'', JArr [JObj [(''content'', JStr y)]])]) = JStr y
   \<and> extractTextFromDeepInfra (JObj [(''choices'', JArr [JObj [(''text'', JStr x)]])]) = JStr x
   \<and> (truthy v \<and> \<not> recognized_shape v \<and> js_value v \<longrightarrow>
         extractTextFromDeepInfra v = JStr (JSON_stringify v)
         \<and> JSON_parse (JSON_stringify v) = Some v)"
proof (intro conjI impI)
  assume "s \<noteq> []"
  then show "extractTextFromDeepInfra (JStr s) = JStr s"
    by (simp add: extractTextFromDeepInfra_def)
next
  show "extractTextFromDeepInfra (JObj [(''results'', JArr [JObj [(''content'', JStr y)]])]) = JStr y"
    by (simp add: extractTextFromDeepInfra_def from_output_def from_results_def coalesce_def)
next
  show "extractTextFromDeepInfra (JObj [(''choices'', JArr [JObj [(''text'', JStr x)]])]) = JStr x"
    by (simp add: extractTextFromDeepInfra_def from_output_def from_results_def from_choices_def
        coalesce_def)
next
  assume a: "truthy v \<and> \<not> recognized_shape v \<and> js_value v"
  then have "\<not> isString v" by (simp add: recognized_shape_def)
  then show "extractTextFromDeepInfra v = JStr (JSON_stringify v)"
    using a unrecognized_attempts [of v] by (simp add: extractTextFromDeepInfra_def)
next
  assume "truthy v \<and> \<not> recognized_shape v \<and> js_value v"
  then show "JSON_parse (JSON_stringify v) = Some v" by (simp add: JSON_round_trip)
qed

theorem extractor_shapes_witness:
  "extractTextFromDeepInfra (JStr ''Z'') = JStr ''Z''
   \<and> truthy (JObj [(''model'', JStr ''m''), (''tokens'', JArr [JNum 12, JNum (- 3)])])
   \<and> \<not> recognized_shape (JObj [(''model'', JStr ''m''), (''tokens'', JArr [JNum 12, JNum (- 3)])])
   \<and> js_value (JObj [(''model'', JStr ''m''), (''tokens'', JArr [JNum 12, JNum (- 3)])])
   \<and> extractTextFromDeepInfra (JObj [(''model'', JStr ''m''), (''tokens'', JArr [JNum 12, JNum (- 3)])])
       = JStr (JSON_stringify (JObj [(''model'', JStr ''m''), (''tokens'', JArr [JNum 12, JNum (- 3)])]))
   \<and> JSON_parse (JSON_stringify (JObj [(''model'', JStr ''m''), (''tokens'', JArr [JNum 12, JNum (- 3)])]))
       = Some (JObj [(''model'', JStr ''m''), (''tokens'', JArr [JNum 12, JNum (- 3)])])
   \<and> JSON_stringify (JObj [(''model'', JStr ''m''), (''tokens'', JArr [JNum 12, JNum (- 3)])])
       = [CHR ''{'', CHR 0x22] @ ''model'' @ [CHR 0x22, CHR '':'', CHR 0x22, CHR ''m'', CHR 0x22, CHR '','', CHR 0x22]
           @ ''tokens'' @ [CHR 0x22] @ '':[12,-3]}''"
proof -
  let ?v = "JObj [(''model'', JStr ''m''), (''tokens'', JArr [JNum 12, JNum (- 3)])]"
  have t: "truthy ?v" by simp
  have u: "\<not> recognized_shape ?v"
    by (simp add: recognized_shape_def has_output_def has_first_def has_error_descriptor_def)
  have idx: "\<not> is_index ''model''" "\<not> is_index ''tokens''"
    by (simp_all add: is_index_def is_digit_def)
  have w: "js_value ?v" by (simp add: property_order_def idx)
  have digits: "show_nat 12 = ''12''" "show_nat 3 = ''3''" by code_simp+
  have written: "JSON_stringify ?v
       = [CHR ''{'', CHR 0x22] @ ''model'' @ [CHR 0x22, CHR '':'', CHR 0x22, CHR ''m'', CHR 0x22, CHR '','', CHR 0x22]
           @ ''tokens'' @ [CHR 0x22] @ '':[12,-3]}''"
    by (simp add: quote_def quote_char_def show_int_def digits)
  show ?thesis
    using extractor_shapes [of "''Z''" _ _ ?v] t u w written by simp
qed

text \<open>
  C2. For every paragraph count \<open>N\<close> from 1 to 10, when fallback mode is enabled and no key
  is configured, the handler answers with status 200; the field \<^verbatim>\<open>paragraphs\<close> holds
  exactly \<open>N\<close> synthetic paragraphs (the \<open>i\<close>-th is
  \<^verbatim>\<open>Paragraph i: A short <genre> scene featuring <characters>.\<close>), and the field
  \<^verbatim>\<open>story\<close> is these paragraphs joined with a blank line, followed by a blank line and
  the fixed preface. The count is the numeric value of the request's \<^verbatim>\<open>paragraphs\<close>, be
  it sent as a number or as a decimal string. The images are empty and no upstream call
  matters. The request is one whose genre and characters convert to strings (\<open>g\<close> and
  \<open>c\<close>, as every string does, and every list of strings): for a genre or a character that
  is an object with a property \<^verbatim>\<open>toString\<close> of its own, lines 56 and 59 throw and the
  answer is the status 500.
\<close>

theorem no_key_fallback_story:
  assumes key: "DEEPINFRA_API_KEY cfg = []" and fb: "DEV_FALLBACK cfg"
    and body: "destructure body = Inr rq"
    and n: "Number (paragraphs rq) = Value (Fin N)" and range: "1 \<le> N" "N \<le> 10"
    and g: "ToString (genre rq) = Value g"
    and cs: "charStr rq = Value cs"
    and c: "ToString (or_else cs (JStr ''characters'')) = Value c"
  shows "\<exists>ps.
           generate_story cfg body text_fetch image_fetch =
             Some \<lparr> http_status = 200,
                    http_body = JObj [(''story'', JStr (join_strs [CHR 0x0A, CHR 0x0A] ps
                                          @ [CHR 0x0A, CHR 0x0A] @ ''Preface: This is a placeholder summary.'')),
                                      (''paragraphs'', JArr (map JStr ps)),
                                      (''images'', JArr [])] \<rparr>
           \<and> int (length ps) = N
           \<and> (\<forall>i < length ps. ps ! i = ''Paragraph '' @ show_nat (i + 1) @ '': A short '' @ g
                                         @ '' scene featuring '' @ c @ ''.'')"
proof -
  have "truthy (paragraphs rq)" using n range(1) by (rule Number_pos_truthy)
  then have cnt: "dummy_count rq = Value (nat N)"
    using n range by (simp add: dummy_count_def or_else_def map_outcome_def)
  obtain c' where "ToString cs = Value c'" using characters_or_default [OF c] by blast
  then obtain pr where pr: "prompt rq cs = Value pr"
    using prompt_value [OF n _ g] range by fastforce
  let ?ps = "map (\<lambda>i. ''Paragraph '' @ show_nat (i + 1) @ '': A short '' @ g
                         @ '' scene featuring '' @ c @ ''.'') [0 ..< nat N]"
  have small: "int (nat N) < 4294967296" using range by simp
  have "paragraphsArr ''short'' rq cs = Value ?ps"
    using paragraphsArr_value [OF cnt small g c, of "''short''"] by simp
  then have "generate_story cfg body text_fetch image_fetch =
               Some (dummy_response ''Preface: This is a placeholder summary.'' ?ps)"
    using key fb body cs pr by (intro generate_story_no_key)
  moreover have "int (length ?ps) = N" using range by simp
  moreover have "\<forall>i < length ?ps. ?ps ! i = ''Paragraph '' @ show_nat (i + 1) @ '': A short '' @ g
                                         @ '' scene featuring '' @ c @ ''.''"
    by simp
  ultimately show ?thesis
    unfolding dummy_response_def dummyStory_def by blast
qed

text \<open>The request \<^verbatim>\<open>{"paragraphs": "4", "genre": "noir", "characters": ["Ann", "Bo"]}\<close>.\<close>

theorem no_key_fallback_story_witness:
  "\<exists>ps.
     generate_story \<lparr> DEEPINFRA_API_KEY = [], DEV_FALLBACK = True \<rparr>
        (Some (JObj [(''paragraphs'', JStr ''4''), (''genre'', JStr ''noir''),
                     (''characters'', JArr [JStr ''Ann'', JStr ''Bo''])]))
        (Rejected []) (\<lambda>i. Rejected []) =
       Some \<lparr> http_status = 200,
              http_body = JObj [(''story'', JStr (join_strs [CHR 0x0A, CHR 0x0A] ps
                                    @ [CHR 0x0A, CHR 0x0A] @ ''Preface: This is a placeholder summary.'')),
                                (''paragraphs'', JArr (map JStr ps)),
                                (''images'', JArr [])] \<rparr>
     \<and> int (length ps) = 4
     \<and> (\<forall>i < length ps. ps ! i = ''Paragraph '' @ show_nat (i + 1)
                                   @ '': A short noir scene featuring Ann, Bo.'')"
proof -
  let ?cfg = "\<lparr> DEEPINFRA_API_KEY = [], DEV_FALLBACK = True \<rparr>"
  let ?rq = "\<lparr> genre = JStr ''noir'', characters = JArr [JStr ''Ann'', JStr ''Bo''],
               paragraphs = JStr ''4'', imagesPerParagraph = JBool False \<rparr>"
  have key: "DEEPINFRA_API_KEY ?cfg = []" and fb: "DEV_FALLBACK ?cfg" by simp_all
  have body: "destructure (Some (JObj [(''paragraphs'', JStr ''4''), (''genre'', JStr ''noir''),
                     (''characters'', JArr [JStr ''Ann'', JStr ''Bo''])])) = Inr ?rq"
    by (simp add: destructure_obj field_or_def)
  have n: "Number (paragraphs ?rq) = Value (Fin 4)"
    by (simp add: StringToNumber_def trim_def is_space_def is_digit_def read_nat_def digit_val_def
        safe_integer_def)
  have g: "ToString (genre ?rq) = Value ''noir''" by simp
  have cs: "charStr ?rq = Value (JStr ''Ann, Bo'')"
    by (simp add: charStr_def join_def map_outcome_def)
  have c: "ToString (or_else (JStr ''Ann, Bo'') (JStr ''characters'')) = Value ''Ann, Bo''"
    by (simp add: or_else_def)
  show ?thesis
    using no_key_fallback_story [OF key fb body n _ _ g cs c, of "Rejected []" "\<lambda>i. Rejected []"]
    by simp
qed



text \<open>
  C4. When the text call is made (lines 56 and 59 throw nothing) and the upstream answers
  with a status outside 200 to 299, the handler answers 402 with the code
  \<^verbatim>\<open>insufficient_balance\<close> if the body of the upstream response contains \<^verbatim>\<open>balance\<close> or
  \<^verbatim>\<open>top-up\<close>, matched case-insensitively, and 502 with the code \<^verbatim>\<open>upstream_error\<close>
  otherwise.
\<close>

theorem non_ok_classification:
  assumes called: "\<not> (DEEPINFRA_API_KEY cfg = [] \<and> DEV_FALLBACK cfg)"
    and body: "destructure body = Inr rq"
    and cs: "charStr rq = Value cs" and pr: "prompt rq cs = Value pr"
    and resp: "text_fetch = Resolved resp" and non_ok: "\<not> ok resp"
    and body_text: "text_body resp = Inr bodyText"
  shows "generate_story cfg body text_fetch image_fetch =
           Some (if contains_ignoring_case bodyText ''balance'' \<or> contains_ignoring_case bodyText ''top-up''
                 then \<lparr> http_status = 402,
                        http_body = JObj [(''code'', JStr ''insufficient_balance''),
                               (''message'', JStr ''DeepInfra account has insufficient balance. Top up to enable inference.''),
                               (''detail'', JStr bodyText)] \<rparr>
                 else \<lparr> http_status = 502,
                        http_body = JObj [(''code'', JStr ''upstream_error''),
                               (''status'', JNum (int (status resp))),
                               (''detail'', JStr bodyText)] \<rparr>)"
proof -
  have "text_call text_fetch = NonOk (status resp) bodyText"
    using resp non_ok body_text by (simp add: text_call_def)
  then have "generate_story cfg body text_fetch image_fetch = Some (non_ok_response (status resp) bodyText)"
    using called body cs pr by (auto simp: generate_story_def handle_def)
  then show ?thesis
    by (simp add: non_ok_response_def contains_ignoring_case_code lower_literals)
qed

theorem non_ok_classification_witness:
  "generate_story \<lparr> DEEPINFRA_API_KEY = ''key'', DEV_FALLBACK = True \<rparr> (Some (JObj []))
      (Resolved \<lparr> status = 402, text_body = Inr ''Insufficient Balance'', json_body = Inl [] \<rparr>)
      (\<lambda>i. Rejected []) =
   Some \<lparr> http_status = 402,
          http_body = JObj [(''code'', JStr ''insufficient_balance''),
                 (''message'', JStr ''DeepInfra account has insufficient balance. Top up to enable inference.''),
                 (''detail'', JStr ''Insufficient Balance'')] \<rparr>
   \<and> generate_story \<lparr> DEEPINFRA_API_KEY = ''key'', DEV_FALLBACK = True \<rparr> (Some (JObj []))
      (Resolved \<lparr> status = 500, text_body = Inr ''overloaded'', json_body = Inl [] \<rparr>)
      (\<lambda>i. Rejected []) =
   Some \<lparr> http_status = 502,
          http_body = JObj [(''code'', JStr ''upstream_error''),
                 (''status'', JNum 500),
                 (''detail'', JStr ''overloaded'')] \<rparr>"
proof -
  let ?cfg = "\<lparr> DEEPINFRA_API_KEY = ''key'', DEV_FALLBACK = True \<rparr>"
  let ?rq = "\<lparr> genre = JStr ''fantasy'', characters = JArr [], paragraphs = JNum 3,
               imagesPerParagraph = JBool False \<rparr>"
  let ?broke = "\<lparr> status = 402, text_body = Inr ''Insufficient Balance'', json_body = Inl [] \<rparr>"
  let ?busy = "\<lparr> status = 500, text_body = Inr ''overloaded'', json_body = Inl [] \<rparr>"
  have called: "\<not> (DEEPINFRA_API_KEY ?cfg = [] \<and> DEV_FALLBACK ?cfg)" by simp
  have body: "destructure (Some (JObj [])) = Inr ?rq"
    by (simp add: destructure_obj field_or_def)
  have cs: "charStr ?rq = Value (JStr [])"
    by (simp add: charStr_def join_def map_outcome_def)
  obtain pr where pr: "prompt ?rq (JStr []) = Value pr"
    by (simp add: prompt_def Number_toString_def)
  have non_ok: "\<not> ok ?broke" "\<not> ok ?busy" by (simp_all add: ok_def)
  have "contains_ignoring_case ''Insufficient Balance'' ''balance''"
    by (simp add: contains_ignoring_case_code toLowerCase_def lower_char_def char_of_def bit_Suc_0_iff)
  moreover have "\<not> contains_ignoring_case ''overloaded'' ''balance''"
      "\<not> contains_ignoring_case ''overloaded'' ''top-up''"
    by (simp_all add: contains_ignoring_case_code toLowerCase_def lower_char_def char_of_def bit_Suc_0_iff)
  ultimately show ?thesis
    using non_ok_classification [OF called body cs pr refl non_ok(1), of "''Insufficient Balance''" "\<lambda>i. Rejected []"]
      non_ok_classification [OF called body cs pr refl non_ok(2), of "''overloaded''" "\<lambda>i. Rejected []"]
    by simp
qed

text \<open>
  C5. The text call is made (lines 56 and 59 throw nothing) and fails: the call or the
  reading of its body is rejected (a network failure, a timeout). With fallback mode
  enabled the handler answers 200 with the synthetic story of the fallback variant, whose
  paragraphs say \<^verbatim>\<open>A fallback ... scene\<close> and whose preface is
  \<^verbatim>\<open>Preface: This is a fallback placeholder.\<close>; no response of the real-upstream
  variant equals it. The number \<open>n\<close> of its paragraphs is \<^verbatim>\<open>Number(paragraphs || 1)\<close>,
  which is defined here, and is a length that \<^verbatim>\<open>Array.from\<close> accepts, one below
  \<open>2^32\<close>. With fallback mode disabled the handler answers 502 with the error
  \<^verbatim>\<open>network_or_upstream\<close> and the message of the failure.
\<close>

theorem text_failure_fallback:
  assumes body: "destructure body = Inr rq"
    and cs: "charStr rq = Value cs" and pr: "prompt rq cs = Value pr"
    and failed: "text_call text_fetch = Threw e"
  shows "(DEV_FALLBACK cfg \<and> DEEPINFRA_API_KEY cfg \<noteq> [] \<and> dummy_count rq = Value n
            \<and> int n < 4294967296 \<longrightarrow>
            (\<exists>ps g c.
               generate_story cfg body text_fetch image_fetch =
                 Some \<lparr> http_status = 200,
                        http_body = JObj [(''story'', JStr (join_strs [CHR 0x0A, CHR 0x0A] ps
                                              @ [CHR 0x0A, CHR 0x0A] @ ''Preface: This is a fallback placeholder.'')),
                                          (''paragraphs'', JArr (map JStr ps)),
                                          (''images'', JArr [])] \<rparr>
               \<and> length ps = n
               \<and> ToString (genre rq) = Value g
               \<and> ToString (or_else cs (JStr ''characters'')) = Value c
               \<and> (\<forall>i < n. ps ! i = ''Paragraph '' @ show_nat (i + 1) @ '': A fallback '' @ g
                                       @ '' scene featuring '' @ c @ ''.''))
            \<and> (\<forall>story textResp images.
                  generate_story cfg body text_fetch image_fetch
                    \<noteq> Some (story_response story textResp images)))
       \<and> (\<exists>m. dummy_count rq = Value m)
       \<and> (\<not> DEV_FALLBACK cfg \<longrightarrow>
            generate_story cfg body text_fetch image_fetch =
              Some \<lparr> http_status = 502,
                     http_body = JObj [(''error'', JStr ''network_or_upstream''), (''message'', JStr e)] \<rparr>)"
proof -
  obtain m g c' where m: "Number (paragraphs rq) = Value m" and g: "ToString (genre rq) = Value g"
    and c': "ToString cs = Value c'"
    using prompt_parts [OF pr] by blast
  obtain c where c: "ToString (or_else cs (JStr ''characters'')) = Value c"
    using default_characters [OF c'] by blast
  have first: "(\<exists>ps g c.
               generate_story cfg body text_fetch image_fetch =
                 Some \<lparr> http_status = 200,
                        http_body = JObj [(''story'', JStr (join_strs [CHR 0x0A, CHR 0x0A] ps
                                              @ [CHR 0x0A, CHR 0x0A] @ ''Preface: This is a fallback placeholder.'')),
                                          (''paragraphs'', JArr (map JStr ps)),
                                          (''images'', JArr [])] \<rparr>
               \<and> length ps = n
               \<and> ToString (genre rq) = Value g
               \<and> ToString (or_else cs (JStr ''characters'')) = Value c
               \<and> (\<forall>i < n. ps ! i = ''Paragraph '' @ show_nat (i + 1) @ '': A fallback '' @ g
                                       @ '' scene featuring '' @ c @ ''.''))
            \<and> (\<forall>story textResp images.
                  generate_story cfg body text_fetch image_fetch
                    \<noteq> Some (story_response story textResp images))"
    if fb: "DEV_FALLBACK cfg" and key: "DEEPINFRA_API_KEY cfg \<noteq> []"
      and cnt: "dummy_count rq = Value n" and small: "int n < 4294967296"
  proof -
    let ?ps = "map (\<lambda>i. ''Paragraph '' @ show_nat (i + 1) @ '': A fallback '' @ g
                         @ '' scene featuring '' @ c @ ''.'') [0 ..< n]"
    have "paragraphsArr ''fallback'' rq cs = Value ?ps"
      using paragraphsArr_value [OF cnt small g c, of "''fallback''"] by simp
    then have run: "generate_story cfg body text_fetch image_fetch =
               Some (dummy_response ''Preface: This is a fallback placeholder.'' ?ps)"
      using key fb body cs pr failed by (intro generate_story_failed)
    have "length ?ps = n" by simp
    moreover have "\<forall>i < n. ?ps ! i = ''Paragraph '' @ show_nat (i + 1) @ '': A fallback '' @ g
                                       @ '' scene featuring '' @ c @ ''.''"
      by simp
    ultimately have "\<exists>ps g c.
               generate_story cfg body text_fetch image_fetch =
                 Some \<lparr> http_status = 200,
                        http_body = JObj [(''story'', JStr (join_strs [CHR 0x0A, CHR 0x0A] ps
                                              @ [CHR 0x0A, CHR 0x0A] @ ''Preface: This is a fallback placeholder.'')),
                                          (''paragraphs'', JArr (map JStr ps)),
                                          (''images'', JArr [])] \<rparr>
               \<and> length ps = n
               \<and> ToString (genre rq) = Value g
               \<and> ToString (or_else cs (JStr ''characters'')) = Value c
               \<and> (\<forall>i < n. ps ! i = ''Paragraph '' @ show_nat (i + 1) @ '': A fallback '' @ g
                                       @ '' scene featuring '' @ c @ ''.'')"
      using run g c unfolding dummy_response_def dummyStory_def by blast
    moreover have "\<forall>story textResp images.
                  generate_story cfg body text_fetch image_fetch
                    \<noteq> Some (story_response story textResp images)"
      using run by (simp add: dummy_ne_story)
    ultimately show ?thesis by blast
  qed
  have second: "\<exists>m. dummy_count rq = Value m" using m by (rule dummy_count_value)
  have third: "generate_story cfg body text_fetch image_fetch =
              Some \<lparr> http_status = 502,
                     http_body = JObj [(''error'', JStr ''network_or_upstream''), (''message'', JStr e)] \<rparr>"
    if "\<not> DEV_FALLBACK cfg"
    using that body cs pr failed by (simp add: generate_story_def handle_def network_error_response_def)
  show ?thesis using first second third by blast
qed

text \<open>The text call times out, for the request \<^verbatim>\<open>{}\<close>.\<close>

theorem text_failure_fallback_witness:
  "(\<exists>ps.
      generate_story \<lparr> DEEPINFRA_API_KEY = ''key'', DEV_FALLBACK = True \<rparr> (Some (JObj []))
          (Rejected ''AbortError: This operation was aborted'') (\<lambda>i. Rejected []) =
        Some \<lparr> http_status = 200,
               http_body = JObj [(''story'', JStr (join_strs [CHR 0x0A, CHR 0x0A] ps
                                     @ [CHR 0x0A, CHR 0x0A] @ ''Preface: This is a fallback placeholder.'')),
                                 (''paragraphs'', JArr (map JStr ps)),
                                 (''images'', JArr [])] \<rparr>
      \<and> length ps = 3
      \<and> (\<forall>i < 3. ps ! i = ''Paragraph '' @ show_nat (i + 1)
                              @ '': A fallback fantasy scene featuring characters.''))
   \<and> generate_story \<lparr> DEEPINFRA_API_KEY = ''key'', DEV_FALLBACK = False \<rparr> (Some (JObj []))
          (Rejected ''AbortError: This operation was aborted'') (\<lambda>i. Rejected []) =
        Some \<lparr> http_status = 502,
               http_body = JObj [(''error'', JStr ''network_or_upstream''),
                                 (''message'', JStr ''AbortError: This operation was aborted'')] \<rparr>"
proof -
  let ?rq = "\<lparr> genre = JStr ''fantasy'', characters = JArr [], paragraphs = JNum 3,
               imagesPerParagraph = JBool False \<rparr>"
  let ?on = "\<lparr> DEEPINFRA_API_KEY = ''key'', DEV_FALLBACK = True \<rparr>"
  let ?off = "\<lparr> DEEPINFRA_API_KEY = ''key'', DEV_FALLBACK = False \<rparr>"
  have body: "destructure (Some (JObj [])) = Inr ?rq"
    by (simp add: destructure_obj field_or_def)
  have cs: "charStr ?rq = Value (JStr [])"
    by (simp add: charStr_def join_def map_outcome_def)
  obtain pr where pr: "prompt ?rq (JStr []) = Value pr"
    by (simp add: prompt_def Number_toString_def)
  have failed: "text_call (Rejected ''AbortError: This operation was aborted'')
                  = Threw ''AbortError: This operation was aborted''"
    by (simp add: text_call_def)
  have cnt: "dummy_count ?rq = Value 3"
    by (simp add: dummy_count_def or_else_def map_outcome_def)
  have c: "or_else (JStr []) (JStr ''characters'') = JStr ''characters''"
    by (simp add: or_else_def)
  show ?thesis
    using text_failure_fallback [OF body cs pr failed, of ?on 3 "\<lambda>i. Rejected []"]
      text_failure_fallback [OF body cs pr failed, of ?off 3 "\<lambda>i. Rejected []"]
    by (auto simp: cnt c)
qed

text \<open>
  C6, as the specification states it: when the splitting finds no segment, the whole
  story is used as one segment. For a story that is one line feed the list of paragraphs is
  empty and no image is generated, although the image service would have answered.
\<close>

theorem blank_story_counterexample:
  "paraArr (JStr [CHR 0x0A]) (JNum 3) = Value []
   \<and> generate_story \<lparr> DEEPINFRA_API_KEY = ''key'', DEV_FALLBACK = True \<rparr>
        (Some (JObj [(''imagesPerParagraph'', JBool True)]))
        (Resolved \<lparr> status = 200, text_body = Inl [],
                     json_body = Inr (JObj [(''output'', JStr [CHR 0x0A])]) \<rparr>)
        (\<lambda>i. Resolved \<lparr> status = 200, text_body = Inl [], json_body = Inr (JObj [(''url'', JStr ''u'')]) \<rparr>) =
       Some \<lparr> http_status = 200,
              http_body = JObj [(''story'', JStr [CHR 0x0A]),
                                (''raw'', JObj [(''output'', JStr [CHR 0x0A])]),
                                (''images'', JArr [])] \<rparr>"
  by (simp add: paraArr_def split_newlines_def trim_def is_space_def generate_story_def handle_def
      after_text_def destructure_obj field_or_def charStr_def join_def map_outcome_def prompt_def
      Number_toString_def text_call_def ok_def storyText_of_def extractTextFromDeepInfra_def
      from_output_def generate_images_def story_response_def)

text \<open>
  C6, amended. For a story that is a string and a requested count \<open>N \<ge> 0\<close>, the
  paragraphs that get an image are the pieces of the story between runs of one or more line
  feeds, without the blank pieces (those made of white space only), capped at \<open>N\<close>: at
  most \<open>N\<close> pieces, all of them when there are fewer. When every piece is blank the list is
  empty. A story that is not a string is used whole, as a single segment. The last two
  parts say what splitting on runs of line feeds is: a piece without line feed is kept
  whole, and a piece followed by a maximal run of line feeds is split off.
\<close>

theorem image_paragraphs:
  "(0 \<le> N \<longrightarrow>
      paraArr (JStr s) (JNum N) =
        Value (map JStr (take (nat N) (filter (\<lambda>p. \<not> list_all is_space p) (split_newlines s)))))
   \<and> (0 \<le> N \<longrightarrow> (\<exists>ps. paraArr (JStr s) (JNum N) = Value ps \<and> length ps \<le> nat N))
   \<and> (0 \<le> N \<and> length (filter (\<lambda>p. \<not> list_all is_space p) (split_newlines s)) \<le> nat N \<longrightarrow>
        paraArr (JStr s) (JNum N) =
          Value (map JStr (filter (\<lambda>p. \<not> list_all is_space p) (split_newlines s))))
   \<and> (list_all (list_all is_space) (split_newlines s) \<longrightarrow> paraArr (JStr s) (JNum N) = Value [])
   \<and> (\<not> isString v \<longrightarrow> paraArr v n = Value [v])
   \<and> (CHR 0x0A \<notin> set seg \<longrightarrow> split_newlines seg = [seg])
   \<and> (CHR 0x0A \<notin> set seg \<and> run \<noteq> [] \<and> set run \<subseteq> {CHR 0x0A} \<and> (rest = [] \<or> hd rest \<noteq> CHR 0x0A) \<longrightarrow>
        split_newlines (seg @ run @ rest) = seg # split_newlines rest)"
proof (intro conjI impI)
  assume "0 \<le> N"
  then show "paraArr (JStr s) (JNum N) =
        Value (map JStr (take (nat N) (filter (\<lambda>p. \<not> list_all is_space p) (split_newlines s))))"
    by (simp add: paraArr_def map_outcome_def trim_blank take_map)
next
  assume "0 \<le> N"
  then show "\<exists>ps. paraArr (JStr s) (JNum N) = Value ps \<and> length ps \<le> nat N"
    by (simp add: paraArr_def map_outcome_def)
next
  assume "0 \<le> N \<and> length (filter (\<lambda>p. \<not> list_all is_space p) (split_newlines s)) \<le> nat N"
  then show "paraArr (JStr s) (JNum N) =
          Value (map JStr (filter (\<lambda>p. \<not> list_all is_space p) (split_newlines s)))"
    by (simp add: paraArr_def map_outcome_def trim_blank)
next
  assume "list_all (list_all is_space) (split_newlines s)"
  then have "filter (\<lambda>p. trim p \<noteq> []) (split_newlines s) = []"
    by (simp add: trim_blank list_all_iff filter_empty_conv)
  then show "paraArr (JStr s) (JNum N) = Value []" by (simp add: paraArr_def map_outcome_def)
next
  assume "\<not> isString v"
  then show "paraArr v n = Value [v]" by (cases v) (simp_all add: paraArr_def)
next
  assume "CHR 0x0A \<notin> set seg"
  then show "split_newlines seg = [seg]" by (rule split_newlines_segment)
next
  assume "CHR 0x0A \<notin> set seg \<and> run \<noteq> [] \<and> set run \<subseteq> {CHR 0x0A} \<and> (rest = [] \<or> hd rest \<noteq> CHR 0x0A)"
  then show "split_newlines (seg @ run @ rest) = seg # split_newlines rest"
    by (intro split_newlines_run) auto
qed

theorem image_paragraphs_witness:
  "paraArr (JStr [CHR ''a'', CHR 0x0A, CHR 0x0A, CHR ''b'']) (JNum 1) = Value [JStr ''a'']
   \<and> paraArr (JStr [CHR 0x0A, CHR '' '']) (JNum 1) = Value []
   \<and> paraArr (JObj []) (JNum 1) = Value [JObj []]
   \<and> split_newlines ''b'' = [''b'']
   \<and> split_newlines (''a'' @ [CHR 0x0A, CHR 0x0A] @ ''b'') = ''a'' # split_newlines ''b''"
proof -
  have a: "split_newlines [CHR ''a'', CHR 0x0A, CHR 0x0A, CHR ''b''] = [''a'', ''b'']"
    by (simp add: split_newlines_def)
  have b: "split_newlines [CHR 0x0A, CHR '' ''] = [[], '' '']"
    by (simp add: split_newlines_def)
  have sp: "is_space CHR '' ''" "\<not> is_space CHR ''a''" "\<not> is_space CHR ''b''"
    by (simp_all add: is_space_def)
  show ?thesis
    using image_paragraphs [where N = 1 and s = "[CHR ''a'', CHR 0x0A, CHR 0x0A, CHR ''b'']"
        and v = "JObj []" and n = "JNum 1" and seg = "''b''" and run = "''x''" and rest = "[]"]
      image_paragraphs [where N = 1 and s = "[CHR 0x0A, CHR '' '']"
        and v = "JObj []" and n = "JNum 1" and seg = "''a''" and run = "[CHR 0x0A, CHR 0x0A]" and rest = "''b''"]
    by (simp add: a b sp)
qed

text \<open>
  C7, as the specification states it: after an exception in the image loop the request
  still completes with a success response that holds the story and the images. The upstream
  payload \<^verbatim>\<open>{"output": {"toString": "x"}}\<close> makes the story an object that has a
  property \<^verbatim>\<open>toString\<close> of its own. With images requested, the story is the one
  paragraph; the template literal of line 126 throws a \<^verbatim>\<open>TypeError\<close> in the first
  iteration, before any image call, and the \<^verbatim>\<open>catch\<close> of line 149 records it. Then
  \<^verbatim>\<open>String(storyText)\<close> of line 156 throws the same error, and the handler answers with
  status 500, without story and without images.
\<close>

theorem image_exception_then_server_error:
  "storyText_of (JObj [(''output'', JObj [(''toString'', JStr ''x'')])]) = JObj [(''toString'', JStr ''x'')]
   \<and> paraArr (JObj [(''toString'', JStr ''x'')]) (JNum 3) = Value [JObj [(''toString'', JStr ''x'')]]
   \<and> image_iteration (JObj [(''toString'', JStr ''x'')])
        (Resolved \<lparr> status = 200, text_body = Inl [], json_body = Inr (JObj [(''url'', JStr ''u'')]) \<rparr>)
       = Thrown ''TypeError: Cannot convert object to primitive value''
   \<and> generate_images
        (\<lambda>i. Resolved \<lparr> status = 200, text_body = Inl [], json_body = Inr (JObj [(''url'', JStr ''u'')]) \<rparr>)
        \<lparr> genre = JStr ''fantasy'', characters = JArr [], paragraphs = JNum 3,
          imagesPerParagraph = JBool True \<rparr>
        (JObj [(''toString'', JStr ''x'')])
       = Some [JObj [(''error'', JStr ''image_generation_failed''),
                     (''message'', JStr ''TypeError: Cannot convert object to primitive value'')]]
   \<and> generate_story \<lparr> DEEPINFRA_API_KEY = ''key'', DEV_FALLBACK = True \<rparr>
        (Some (JObj [(''imagesPerParagraph'', JBool True)]))
        (Resolved \<lparr> status = 200, text_body = Inl [],
                     json_body = Inr (JObj [(''output'', JObj [(''toString'', JStr ''x'')])]) \<rparr>)
        (\<lambda>i. Resolved \<lparr> status = 200, text_body = Inl [], json_body = Inr (JObj [(''url'', JStr ''u'')]) \<rparr>)
       = Some \<lparr> http_status = 500,
                http_body = JObj [(''error'', JStr ''server_error''),
                                  (''message'', JStr ''TypeError: Cannot convert object to primitive value'')] \<rparr>"
proof -
  have st: "storyText_of (JObj [(''output'', JObj [(''toString'', JStr ''x'')])]) = JObj [(''toString'', JStr ''x'')]"
    by (simp add: storyText_of_def extractTextFromDeepInfra_def from_output_def)
  have paras: "paraArr (JObj [(''toString'', JStr ''x'')]) (JNum 3) = Value [JObj [(''toString'', JStr ''x'')]]"
    by (simp add: paraArr_def)
  have iteration: "image_iteration (JObj [(''toString'', JStr ''x'')]) f
       = Thrown ''TypeError: Cannot convert object to primitive value''" for f
    by (simp add: image_iteration_def imgPrompt_def cannot_convert_def)
  have images: "generate_images f
        \<lparr> genre = JStr ''fantasy'', characters = JArr [], paragraphs = JNum 3,
          imagesPerParagraph = JBool True \<rparr>
        (JObj [(''toString'', JStr ''x'')])
       = Some [JObj [(''error'', JStr ''image_generation_failed''),
                     (''message'', JStr ''TypeError: Cannot convert object to primitive value'')]]" for f
    by (simp add: generate_images_def paras iteration image_generation_failed_def)
  have "generate_story \<lparr> DEEPINFRA_API_KEY = ''key'', DEV_FALLBACK = True \<rparr>
        (Some (JObj [(''imagesPerParagraph'', JBool True)]))
        (Resolved \<lparr> status = 200, text_body = Inl [],
                     json_body = Inr (JObj [(''output'', JObj [(''toString'', JStr ''x'')])]) \<rparr>) f
       = Some \<lparr> http_status = 500,
                http_body = JObj [(''error'', JStr ''server_error''),
                                  (''message'', JStr ''TypeError: Cannot convert object to primitive value'')] \<rparr>" for f
    by (simp add: generate_story_def handle_def after_text_def destructure_obj field_or_def charStr_def
        join_def map_outcome_def prompt_def Number_toString_def text_call_def ok_def st images
        cannot_convert_def server_error_response_def)
  then show ?thesis using st paras iteration images by simp
qed

text \<open>
  C7, amended. Images are requested and the text call is made and succeeds with a story
  that \<^verbatim>\<open>String\<close> converts (as it converts every string); the first \<open>k\<close> iterations of
  the image loop push their slots and iteration \<open>k\<close> throws. Then the response is the
  success response with the story; its \<^verbatim>\<open>images\<close> array is the \<open>k\<close> slots collected
  before, followed by exactly one error descriptor
  \<^verbatim>\<open>{error: "image_generation_failed", message}\<close>; the paragraphs after \<open>k\<close> are not
  processed: the outcomes of their calls do not matter.
\<close>

theorem image_exception_aborts_loop:
  assumes called: "\<not> (DEEPINFRA_API_KEY cfg = [] \<and> DEV_FALLBACK cfg)"
    and body: "destructure body = Inr rq"
    and cs: "charStr rq = Value cs" and pr: "prompt rq cs = Value pr"
    and payload: "text_call text_fetch = Payload textResp"
    and wanted: "truthy (imagesPerParagraph rq)"
    and paras: "paraArr (storyText_of textResp) (paragraphs rq) = Value ps"
    and story: "ToString (storyText_of textResp) = Value story"
    and k: "k < length ps"
    and before: "\<forall>i < k. image_iteration (ps ! i) (image_fetch i) = Value (slot i)"
    and thrown: "image_iteration (ps ! k) (image_fetch k) = Thrown e"
  shows "generate_story cfg body text_fetch image_fetch =
           Some \<lparr> http_status = 200,
                  http_body = JObj [(''story'', JStr story),
                                    (''raw'', textResp),
                                    (''images'', JArr (map slot [0 ..< k]
                                        @ [JObj [(''error'', JStr ''image_generation_failed''),
                                                 (''message'', JStr e)]]))] \<rparr>
         \<and> (\<forall>image_fetch'. (\<forall>i \<le> k. image_fetch' i = image_fetch i) \<longrightarrow>
               generate_story cfg body text_fetch image_fetch' =
               generate_story cfg body text_fetch image_fetch)"
proof
  have "\<forall>j < k. image_iteration (ps ! j) (image_fetch (0 + j)) = Value (slot (0 + j))"
    using before by simp
  moreover have "image_iteration (ps ! k) (image_fetch (0 + k)) = Thrown e" using thrown by simp
  ultimately have "image_loop image_fetch 0 ps [] =
                     Some ([] @ map slot [0 ..< 0 + k] @ [image_generation_failed e])"
    using k by (intro image_loop_thrown)
  then show "generate_story cfg body text_fetch image_fetch =
           Some \<lparr> http_status = 200,
                  http_body = JObj [(''story'', JStr story),
                                    (''raw'', textResp),
                                    (''images'', JArr (map slot [0 ..< k]
                                        @ [JObj [(''error'', JStr ''image_generation_failed''),
                                                 (''message'', JStr e)]]))] \<rparr>"
    using generate_story_payload [OF called body cs pr payload wanted paras story, of image_fetch]
    by (simp add: story_response_def image_generation_failed_def)
  show "\<forall>image_fetch'. (\<forall>i \<le> k. image_fetch' i = image_fetch i) \<longrightarrow>
               generate_story cfg body text_fetch image_fetch' =
               generate_story cfg body text_fetch image_fetch"
  proof (intro allI impI)
    fix image_fetch' assume "\<forall>i \<le> k. image_fetch' i = image_fetch i"
    then have "\<forall>j \<le> k. image_fetch' (0 + j) = image_fetch (0 + j)" by simp
    moreover have "image_iteration (ps ! k) (image_fetch (0 + k)) = Thrown e" using thrown by simp
    ultimately have "image_loop image_fetch' 0 ps [] = image_loop image_fetch 0 ps []"
      using k by (intro image_loop_cong)
    then show "generate_story cfg body text_fetch image_fetch' =
               generate_story cfg body text_fetch image_fetch"
      using generate_story_payload [OF called body cs pr payload wanted paras story] by simp
  qed
qed

text \<open>A story of three paragraphs; the second image call is rejected.\<close>

theorem image_exception_aborts_loop_witness:
  "generate_story \<lparr> DEEPINFRA_API_KEY = ''key'', DEV_FALLBACK = True \<rparr>
        (Some (JObj [(''imagesPerParagraph'', JBool True)]))
        (Resolved \<lparr> status = 200, text_body = Inl [],
                     json_body = Inr (JObj [(''output'', JStr [CHR ''a'', CHR 0x0A, CHR ''b'', CHR 0x0A, CHR ''c''])]) \<rparr>)
        (\<lambda>i. if i = 1 then Rejected ''TypeError: fetch failed''
              else Resolved \<lparr> status = 200, text_body = Inl [], json_body = Inr (JObj [(''url'', JStr ''u'')]) \<rparr>) =
       Some \<lparr> http_status = 200,
              http_body = JObj [(''story'', JStr [CHR ''a'', CHR 0x0A, CHR ''b'', CHR 0x0A, CHR ''c'']),
                                (''raw'', JObj [(''output'', JStr [CHR ''a'', CHR 0x0A, CHR ''b'', CHR 0x0A, CHR ''c''])]),
                                (''images'', JArr [JObj [(''url'', JStr ''u'')],
                                                   JObj [(''error'', JStr ''image_generation_failed''),
                                                         (''message'', JStr ''TypeError: fetch failed'')]])] \<rparr>"
proof -
  let ?cfg = "\<lparr> DEEPINFRA_API_KEY = ''key'', DEV_FALLBACK = True \<rparr>"
  let ?rq = "\<lparr> genre = JStr ''fantasy'', characters = JArr [], paragraphs = JNum 3,
               imagesPerParagraph = JBool True \<rparr>"
  let ?story = "[CHR ''a'', CHR 0x0A, CHR ''b'', CHR 0x0A, CHR ''c'']"
  let ?textResp = "JObj [(''output'', JStr ?story)]"
  let ?good = "\<lparr> status = 200, text_body = Inl [], json_body = Inr (JObj [(''url'', JStr ''u'')]) \<rparr>"
  let ?fetch = "\<lambda>i::nat. if i = 1 then Rejected ''TypeError: fetch failed'' else Resolved ?good"
  let ?ps = "[JStr ''a'', JStr ''b'', JStr ''c'']"
  have called: "\<not> (DEEPINFRA_API_KEY ?cfg = [] \<and> DEV_FALLBACK ?cfg)" by simp
  have body: "destructure (Some (JObj [(''imagesPerParagraph'', JBool True)])) = Inr ?rq"
    by (simp add: destructure_obj field_or_def)
  have cs: "charStr ?rq = Value (JStr [])"
    by (simp add: charStr_def join_def map_outcome_def)
  obtain pr where pr: "prompt ?rq (JStr []) = Value pr"
    by (simp add: prompt_def Number_toString_def)
  have payload: "text_call (Resolved \<lparr> status = 200, text_body = Inl [], json_body = Inr ?textResp \<rparr>)
                   = Payload ?textResp"
    by (simp add: text_call_def ok_def)
  have wanted: "truthy (imagesPerParagraph ?rq)" by simp
  have st: "storyText_of ?textResp = JStr ?story"
    by (simp add: storyText_of_def extractTextFromDeepInfra_def from_output_def)
  have paras: "paraArr (storyText_of ?textResp) (paragraphs ?rq) = Value ?ps"
    by (simp add: st paraArr_def split_abc trim_letters map_outcome_def)
  have story: "ToString (storyText_of ?textResp) = Value ?story" by (simp add: st)
  have k: "1 < length ?ps" by simp
  have before: "\<forall>i < 1. image_iteration (?ps ! i) (?fetch i) = Value (JObj [(''url'', JStr ''u'')])"
    by (simp add: image_iteration_def imgPrompt_def ok_def image_slot_def image_url_def coalesce_def)
  have thrown: "image_iteration (?ps ! 1) (?fetch 1) = Thrown ''TypeError: fetch failed''"
    by (simp add: image_iteration_def imgPrompt_def)
  show ?thesis
    using image_exception_aborts_loop [OF called body cs pr payload wanted paras story k before thrown]
    by simp
qed




text \<open>
  C9. Every fallback response has an empty \<^verbatim>\<open>images\<close> array, whatever the request says
  about images. When fallback mode is enabled and either no key is configured or the text
  call failed, the response is the same for every behaviour of the image service (no image
  call is made); a response with status 200 has \<^verbatim>\<open>images: []\<close>; the only other response
  is the status 500 for an error thrown by lines 56, 59, 72 or 109; and the response with
  status 200 is the one sent whenever lines 56 and 59 throw nothing and the count of
  paragraphs is a length below \<open>2^32\<close>.
\<close>

theorem fallback_images_empty:
  assumes fb: "DEV_FALLBACK cfg"
    and path: "DEEPINFRA_API_KEY cfg = [] \<or> (\<exists>e. text_call text_fetch = Threw e)"
    and body: "destructure body = Inr rq"
  shows "(\<forall>image_fetch'. generate_story cfg body text_fetch image_fetch' =
                          generate_story cfg body text_fetch image_fetch)
       \<and> (\<forall>r. generate_story cfg body text_fetch image_fetch = Some r \<and> http_status r = 200 \<longrightarrow>
                js_prop (http_body r) ''images'' = Some (JArr []))
       \<and> (\<forall>r. generate_story cfg body text_fetch image_fetch = Some r \<longrightarrow>
                http_status r = 200 \<or> (\<exists>e. r = server_error_response e))
       \<and> (\<forall>cs pr n. charStr rq = Value cs \<and> prompt rq cs = Value pr \<and> dummy_count rq = Value n
                     \<and> int n < 4294967296 \<longrightarrow>
                (\<exists>r. generate_story cfg body text_fetch image_fetch = Some r \<and> http_status r = 200
                     \<and> js_prop (http_body r) ''images'' = Some (JArr [])))"
proof -
  obtain res where same: "\<And>imf. handle cfg body text_fetch imf = res"
    and val: "\<And>r. res = Value r \<Longrightarrow> \<exists>p ps. r = dummy_response p ps"
    using fb path body fallback_paths by blast
  have run: "generate_story cfg body text_fetch imf =
               (case res of Value r \<Rightarrow> Some r | Thrown e \<Rightarrow> Some (server_error_response e) | Outside \<Rightarrow> None)"
    for imf
    by (simp add: generate_story_def same)
  have first: "\<forall>image_fetch'. generate_story cfg body text_fetch image_fetch' =
                          generate_story cfg body text_fetch image_fetch"
    by (simp add: run)
  have cases: "(\<exists>p ps. r = dummy_response p ps) \<or> (\<exists>e. r = server_error_response e)"
    if "generate_story cfg body text_fetch image_fetch = Some r" for r
    using that val by (cases res) (auto simp: run)
  have second: "\<forall>r. generate_story cfg body text_fetch image_fetch = Some r \<and> http_status r = 200 \<longrightarrow>
                js_prop (http_body r) ''images'' = Some (JArr [])"
    using cases by (auto simp: dummy_response_def server_error_response_def)
  have third: "\<forall>r. generate_story cfg body text_fetch image_fetch = Some r \<longrightarrow>
                http_status r = 200 \<or> (\<exists>e. r = server_error_response e)"
    using cases by (auto simp: dummy_response_def)
  have fourth: "\<exists>r. generate_story cfg body text_fetch image_fetch = Some r \<and> http_status r = 200
                     \<and> js_prop (http_body r) ''images'' = Some (JArr [])"
    if cs: "charStr rq = Value cs" and pr: "prompt rq cs = Value pr"
      and cnt: "dummy_count rq = Value n" and small: "int n < 4294967296" for cs pr n
  proof -
    obtain g c' where g: "ToString (genre rq) = Value g" and c': "ToString cs = Value c'"
      using prompt_parts [OF pr] by blast
    obtain c where c: "ToString (or_else cs (JStr ''characters'')) = Value c"
      using default_characters [OF c'] by blast
    have "\<exists>p ps. generate_story cfg body text_fetch image_fetch = Some (dummy_response p ps)"
    proof (cases "DEEPINFRA_API_KEY cfg = []")
      case True
      then show ?thesis
        using generate_story_no_key [OF True fb body cs pr paragraphsArr_value [OF cnt small g c]]
        by blast
    next
      case False
      then obtain e where "text_call text_fetch = Threw e" using path by blast
      then show ?thesis
        using generate_story_failed [OF False fb body cs pr _ paragraphsArr_value [OF cnt small g c]]
        by blast
    qed
    then show ?thesis by (auto simp: dummy_response_def)
  qed
  show ?thesis using first second third fourth by blast
qed

text \<open>Images are requested and the image service would answer, but the text call failed.\<close>

theorem fallback_images_empty_witness:
  "\<exists>r. generate_story \<lparr> DEEPINFRA_API_KEY = ''key'', DEV_FALLBACK = True \<rparr>
          (Some (JObj [(''imagesPerParagraph'', JBool True)])) (Rejected ''TypeError: fetch failed'')
          (\<lambda>i. Resolved \<lparr> status = 200, text_body = Inl [], json_body = Inr (JObj [(''url'', JStr ''u'')]) \<rparr>)
        = Some r
      \<and> http_status r = 200 \<and> js_prop (http_body r) ''images'' = Some (JArr [])"
proof -
  let ?cfg = "\<lparr> DEEPINFRA_API_KEY = ''key'', DEV_FALLBACK = True \<rparr>"
  let ?rq = "\<lparr> genre = JStr ''fantasy'', characters = JArr [], paragraphs = JNum 3,
               imagesPerParagraph = JBool True \<rparr>"
  have fb: "DEV_FALLBACK ?cfg" by simp
  have path: "DEEPINFRA_API_KEY ?cfg = [] \<or> (\<exists>e. text_call (Rejected ''TypeError: fetch failed'') = Threw e)"
    by (simp add: text_call_def)
  have body: "destructure (Some (JObj [(''imagesPerParagraph'', JBool True)])) = Inr ?rq"
    by (simp add: destructure_obj field_or_def)
  have cs: "charStr ?rq = Value (JStr [])"
    by (simp add: charStr_def join_def map_outcome_def)
  obtain pr where pr: "prompt ?rq (JStr []) = Value pr"
    by (simp add: prompt_def Number_toString_def)
  have cnt: "dummy_count ?rq = Value 3"
    by (simp add: dummy_count_def or_else_def map_outcome_def)
  have small: "int 3 < 4294967296" by simp
  from fallback_images_empty [OF fb path body]
  have "\<forall>cs pr n. charStr ?rq = Value cs \<and> prompt ?rq cs = Value pr \<and> dummy_count ?rq = Value n
                     \<and> int n < 4294967296 \<longrightarrow>
                (\<exists>r. generate_story ?cfg (Some (JObj [(''imagesPerParagraph'', JBool True)]))
                        (Rejected ''TypeError: fetch failed'')
                        (\<lambda>i. Resolved \<lparr> status = 200, text_body = Inl [],
                                         json_body = Inr (JObj [(''url'', JStr ''u'')]) \<rparr>) = Some r
                     \<and> http_status r = 200
                     \<and> js_prop (http_body r) ''images'' = Some (JArr []))"
    by blast
  then show ?thesis using cs pr cnt small by blast
qed

text \<open>
  C10. The handler reads the four fields of the request body with defaults: a missing
  \<^verbatim>\<open>genre\<close> is \<^verbatim>\<open>"fantasy"\<close>, missing \<^verbatim>\<open>characters\<close> are the empty list (whose
  character string is empty), a missing \<^verbatim>\<open>paragraphs\<close> is 3, a missing
  \<^verbatim>\<open>imagesPerParagraph\<close> is \<^verbatim>\<open>false\<close>, so that no image is generated. A
  \<^verbatim>\<open>characters\<close> value that is not an array is used verbatim as the character string; an
  array is joined with \<^verbatim>\<open>", "\<close>: the character string is what \<^verbatim>\<open>join\<close> returns, and
  \<^verbatim>\<open>join\<close> throws what it throws; for an array of strings it is the strings with
  \<^verbatim>\<open>", "\<close> between them.
\<close>

theorem request_defaults:
  assumes body: "destructure (Some b) = Inr rq"
  shows "(js_prop b ''genre'' = None \<longrightarrow> genre rq = JStr ''fantasy'')
       \<and> (js_prop b ''characters'' = None \<longrightarrow> characters rq = JArr [] \<and> charStr rq = Value (JStr []))
       \<and> (js_prop b ''paragraphs'' = None \<longrightarrow> paragraphs rq = JNum 3 \<and> dummy_count rq = Value 3)
       \<and> (js_prop b ''imagesPerParagraph'' = None \<longrightarrow>
             imagesPerParagraph rq = JBool False
             \<and> (\<forall>image_fetch storyText. generate_images image_fetch rq storyText = Some []))
       \<and> (\<not> isArray (characters rq) \<longrightarrow> charStr rq = Value (characters rq))
       \<and> (\<forall>xs. characters rq = JArr xs \<longrightarrow> charStr rq = map_outcome JStr (join xs '', ''))
       \<and> (\<forall>ss. characters rq = JArr (map JStr ss) \<longrightarrow> charStr rq = Value (JStr (join_strs '', '' ss)))"
proof -
  have rq: "rq = \<lparr> genre = field_or b ''genre'' (JStr ''fantasy''),
           characters = field_or b ''characters'' (JArr []),
           paragraphs = field_or b ''paragraphs'' (JNum 3),
           imagesPerParagraph = field_or b ''imagesPerParagraph'' (JBool False) \<rparr>"
    using body by (cases b) (auto simp: destructure_def)
  have "\<not> isArray (characters rq) \<longrightarrow> charStr rq = Value (characters rq)"
    by (cases "characters rq") (simp_all add: charStr_def)
  moreover have "\<forall>ss. characters rq = JArr (map JStr ss) \<longrightarrow> charStr rq = Value (JStr (join_strs '', '' ss))"
    by (simp add: charStr_def join_def join_from_strings map_outcome_def)
  moreover have "\<forall>xs. characters rq = JArr xs \<longrightarrow> charStr rq = map_outcome JStr (join xs '', '')"
    by (simp add: charStr_def)
  ultimately show ?thesis
    by (simp add: rq field_or_def charStr_def join_def dummy_count_def or_else_def generate_images_def
        map_outcome_def)
qed

theorem request_defaults_witness:
  "genre \<lparr> genre = JStr ''fantasy'', characters = JStr ''Arya, Tom'', paragraphs = JNum 3,
           imagesPerParagraph = JBool False \<rparr> = JStr ''fantasy''
   \<and> charStr \<lparr> genre = JStr ''fantasy'', characters = JStr ''Arya, Tom'', paragraphs = JNum 3,
           imagesPerParagraph = JBool False \<rparr> = Value (JStr ''Arya, Tom'')
   \<and> dummy_count \<lparr> genre = JStr ''fantasy'', characters = JStr ''Arya, Tom'', paragraphs = JNum 3,
           imagesPerParagraph = JBool False \<rparr> = Value 3
   \<and> charStr \<lparr> genre = JStr ''mystery'', characters = JArr [], paragraphs = JNum 3,
           imagesPerParagraph = JBool False \<rparr> = Value (JStr [])
   \<and> charStr \<lparr> genre = JStr ''fantasy'', characters = JArr [JStr ''Arya'', JStr ''Tom''],
           paragraphs = JNum 3, imagesPerParagraph = JBool False \<rparr> = Value (JStr ''Arya, Tom'')"
proof -
  let ?verbatim = "\<lparr> genre = JStr ''fantasy'', characters = JStr ''Arya, Tom'', paragraphs = JNum 3,
           imagesPerParagraph = JBool False \<rparr>"
  let ?nobody = "\<lparr> genre = JStr ''mystery'', characters = JArr [], paragraphs = JNum 3,
           imagesPerParagraph = JBool False \<rparr>"
  let ?two = "\<lparr> genre = JStr ''fantasy'', characters = JArr [JStr ''Arya'', JStr ''Tom''],
           paragraphs = JNum 3, imagesPerParagraph = JBool False \<rparr>"
  have verbatim: "destructure (Some (JObj [(''characters'', JStr ''Arya, Tom'')])) = Inr ?verbatim"
    by (simp add: destructure_obj field_or_def)
  have nobody: "destructure (Some (JObj [(''genre'', JStr ''mystery'')])) = Inr ?nobody"
    by (simp add: destructure_obj field_or_def)
  have two: "destructure (Some (JObj [(''characters'', JArr [JStr ''Arya'', JStr ''Tom''])])) = Inr ?two"
    by (simp add: destructure_obj field_or_def)
  have "genre ?verbatim = JStr ''fantasy'' \<and> charStr ?verbatim = Value (JStr ''Arya, Tom'')
        \<and> dummy_count ?verbatim = Value 3"
    using request_defaults [OF verbatim] by simp
  moreover have "charStr ?nobody = Value (JStr [])"
    using request_defaults [OF nobody] by simp
  moreover have "\<forall>ss. characters ?two = JArr (map JStr ss) \<longrightarrow>
                       charStr ?two = Value (JStr (join_strs '', '' ss))"
    using request_defaults [OF two] by blast
  then have "characters ?two = JArr (map JStr [''Arya'', ''Tom'']) \<longrightarrow>
               charStr ?two = Value (JStr (join_strs '', '' [''Arya'', ''Tom'']))"
    by (rule spec)
  then have "charStr ?two = Value (JStr ''Arya, Tom'')" by simp
  ultimately show ?thesis by simp
qed

end
